theory Spec2Isabelle
  imports Main
begin

section \<open>Data model\<close>

text \<open>
  Instants (Go \<open>time.Time\<close>) and durations (\<open>time.Duration\<close>) are integers counting
  nanoseconds. \<open>Before\<close> and \<open>After\<close> are the strict orders on instants.
\<close>

type_synonym time = int

text \<open>\<open>internal/database/database.go\<close>: the transaction status enumeration.\<close>

datatype Status = StatusPending | StatusProcessing | StatusCompleted | StatusFailed

text \<open>\<open>api/models\<close>: a device is a product of four optional identifiers.\<close>

record DeviceIpv4Addr =
  PrivateAddress :: "string option"
  PublicAddress :: "string option"
  PublicPort :: "int option"

record Device =
  Ipv4Address :: "DeviceIpv4Addr option"
  Ipv6Address :: "string option"
  NetworkAccessIdentifier :: "string option"
  PhoneNumber :: "string option"

text \<open>
  \<open>models.SubscriptionRequest\<close>. Only \<open>Sink\<close> is ever inspected by the services modelled
  here; \<open>Protocol\<close> is kept as carried data, the remaining fields (config, protocol
  settings, credential, types) are passed through untouched by every handler and are
  left out.
\<close>

record SubscriptionRequest =
  Protocol :: string
  Sink :: string

record DeviceActionStatus =
  Status_das :: string
  Timestamp_das :: time

record TransactionDevice =
  DeviceID :: string
  Device :: Device
  StartAction :: "DeviceActionStatus option"
  EndAction :: "DeviceActionStatus option"

record Transaction =
  TransactionID :: string
  StartAt :: time
  EndAt :: "time option"
  Enabled :: bool
  SubscriptionRequest :: SubscriptionRequest
  Status :: Status
  CreatedAt :: time
  UpdatedAt :: time
  ErrorMessage :: string
  Devices :: "TransactionDevice list"
  StartActionCompleted :: bool
  EndActionCompleted :: bool
  StartActionNotified :: bool
  EndActionNotified :: bool

record DeviceOriginalState =
  DeviceID_os :: string
  PpMaximumLatency_os :: string
  PpMaximumResponseTime_os :: string
  Timestamp_os :: time

text \<open>\<open>pkg/easyapi/interface.go\<close> and \<open>pkg/config\<close>.\<close>

record DeviceConfig =
  PpMaximumLatency :: string
  PpMaximumResponseTime :: string

record PowerSaving =
  MaxLatency :: string
  MaxResponseTime :: string

text \<open>\<open>pkg/event\<close>: event types, sources, actions and payloads.\<close>

datatype EventType =
    EventTypeScheduleRequested
  | EventTypeDeviceActuationRequest
  | EventTypeAllDevicesCompleted
  | EventTypePowerSavingError

datatype Source = SourceiotAPI | SourceiotScheduler | SourceiotWorker | SourceiotNotify

definition ActionStart :: string where
  "ActionStart = ''start''"

definition ActionEnd :: string where
  "ActionEnd = ''end''"

text \<open>
  The payload structs, fields in declaration order:
  \<open>DeviceActuationRequestData{Device, Enabled, TransactionID, Action, SubscriptionRequest}\<close>,
  \<open>AllDevicesCompletedData{TransactionID, Action, CompletedAt, SubscriptionRequest}\<close>,
  \<open>ErrorNotificationData{TransactionID, Status, Code, Message, Action, SubscriptionRequest}\<close>.
\<close>

datatype EventData =
    DeviceActuationRequestData Device bool string string SubscriptionRequest
  | AllDevicesCompletedData string string time SubscriptionRequest
  | ErrorNotificationData string int string string string SubscriptionRequest

text \<open>One call of \<open>Sender.Send(ctx, id, eventType, source, data)\<close>.\<close>

datatype SentEvent = SendCall string EventType Source EventData

text \<open>
  \<open>ScheduleRequestedData{StartAt, EndAt, Payload}\<close> with
  \<open>PowerSavingPayload{Devices, Enabled, SubscriptionRequest, TransactionID}\<close> flattened.
\<close>

record ScheduleRequestedData =
  StartAt_sr :: time
  EndAt_sr :: "time option"
  Devices_sr :: "Device list"
  Enabled_sr :: bool
  SubscriptionRequest_sr :: SubscriptionRequest
  TransactionID_sr :: string

section \<open>Environment and world\<close>

text \<open>
  Every round trip to something outside the process: a driver call on one of the two
  collections, a call of the device client, a publish. The constructor names the method
  and the driver operation it issues, with the arguments that identify the call.
\<close>

datatype ext_call =
    CreateTransaction_InsertOne string
  | GetTransaction_FindOne string
  | GetPendingTransactions_Find
  | ClaimTransaction_UpdateOne string string
  | ClaimTransaction_FindOne string
  | MarkTransactionFailed_UpdateOne string
  | MarkTransactionCompleted_UpdateOne string
  | StoreDeviceOriginalState_ReplaceOne string
  | GetDeviceOriginalState_FindOne string
  | UpdateDeviceActionStatus_FindOneAndUpdate string string string string
  | UpdateDeviceActionStatus_UpdateOne string string string string
  | Client_GetDeviceConfig Device
  | Client_SetDeviceConfig Device DeviceConfig
  | Sender_Send string

text \<open>
  The environment of one handler execution: the clock reading, which external calls fail
  (transport or server errors, decided by the environment and arbitrary), and the
  configuration the device backend currently reports for a device. A failed call leaves
  the store as it was.
\<close>

record env =
  now :: time
  fails :: "ext_call \<Rightarrow> bool"
  nefConfig :: "Device \<Rightarrow> DeviceConfig"

datatype error =
    ErrNoDocuments
  | ErrDuplicateKey
  | ErrDriver
  | ErrTransactionNotFound string
  | ErrClient
  | ErrUndelivered
  | Errorf string error

datatype nef_call =
    GetDeviceConfig_call Device
  | SetDeviceConfig_call Device DeviceConfig

text \<open>
  \<open>scheduleAction{TransactionID, Action, SubscriptionRequest}\<close>, and a timer created by
  \<open>time.AfterFunc(delay, func() { enqueueScheduleAction(...) })\<close>: its delay and the
  action its callback enqueues.
\<close>

datatype scheduleAction = ScheduleAction string string SubscriptionRequest

datatype timer = AfterFunc int scheduleAction

text \<open>
  The world the services act on: the two collections (documents in insertion order), the
  calls received by the device client, the calls of \<open>Send\<close>, and in the scheduler the
  timers armed so far together with its \<open>timers\<close> map.
\<close>

record world =
  transactions :: "Transaction list"
  deviceConfigs :: "DeviceOriginalState list"
  nefCalls :: "nef_call list"
  sent :: "SentEvent list"
  armed :: "timer list"
  timers :: "string \<rightharpoonup> timer"

section \<open>The document store\<close>

text \<open>
  Driver operations on a collection. \<open>UpdateOne\<close> changes the first document matching the
  filter and reports \<open>MatchedCount\<close>; \<open>FindOneAndUpdate\<close> with \<open>ReturnDocument(After)\<close>
  also returns the post-image; \<open>InsertOne\<close> refuses a document whose \<open>_id\<close> is taken;
  \<open>ReplaceOne\<close> with upsert replaces the matching document or inserts.
\<close>

fun update_first :: "('d \<Rightarrow> bool) \<Rightarrow> ('d \<Rightarrow> 'd) \<Rightarrow> 'd list \<Rightarrow> 'd list" where
  "update_first P f [] = []"
| "update_first P f (d # ds) = (if P d then f d # ds else d # update_first P f ds)"

definition UpdateOne :: "('d \<Rightarrow> bool) \<Rightarrow> ('d \<Rightarrow> 'd) \<Rightarrow> 'd list \<Rightarrow> nat \<times> 'd list" where
  "UpdateOne P f ds = ((if list_ex P ds then 1 else 0), update_first P f ds)"

definition FindOneAndUpdate :: "('d \<Rightarrow> bool) \<Rightarrow> ('d \<Rightarrow> 'd) \<Rightarrow> 'd list \<Rightarrow> 'd option \<times> 'd list" where
  "FindOneAndUpdate P f ds = (map_option f (find P ds), update_first P f ds)"

definition InsertOne :: "('d \<Rightarrow> string) \<Rightarrow> 'd \<Rightarrow> 'd list \<Rightarrow> 'd list option" where
  "InsertOne key d ds = (if list_ex (\<lambda>x. key x = key d) ds then None else Some (ds @ [d]))"

definition ReplaceOne_upsert :: "('d \<Rightarrow> bool) \<Rightarrow> 'd \<Rightarrow> 'd list \<Rightarrow> 'd list" where
  "ReplaceOne_upsert P d ds = (if list_ex P ds then update_first P (\<lambda>_. d) ds else ds @ [d])"

subsection \<open>The transaction store (package database, type mongoDB)\<close>

definition CreateTransaction :: "env \<Rightarrow> Transaction \<Rightarrow> world \<Rightarrow> error option \<times> world" where
  "CreateTransaction e transaction w =
     (let t = transaction\<lparr>CreatedAt := now e, UpdatedAt := now e\<rparr> in
      if fails e (CreateTransaction_InsertOne (TransactionID t)) then (Some ErrDriver, w)
      else case InsertOne TransactionID t (transactions w) of
             None \<Rightarrow> (Some ErrDuplicateKey, w)
           | Some ds \<Rightarrow> (None, w\<lparr>transactions := ds\<rparr>))"

definition GetTransaction :: "env \<Rightarrow> string \<Rightarrow> world \<Rightarrow> error + Transaction" where
  "GetTransaction e transactionID w =
     (if fails e (GetTransaction_FindOne transactionID) then Inl ErrDriver
      else case find (\<lambda>t. TransactionID t = transactionID) (transactions w) of
             None \<Rightarrow> Inl ErrNoDocuments
           | Some t \<Rightarrow> Inr t)"

definition GetPendingTransactions :: "env \<Rightarrow> world \<Rightarrow> error + Transaction list" where
  "GetPendingTransactions e w =
     (if fails e GetPendingTransactions_Find
      then Inl (Errorf ''query pending transactions'' ErrDriver)
      else Inr (filter (\<lambda>t. Status t = StatusPending \<or> Status t = StatusProcessing)
                  (transactions w)))"

text \<open>
  The filter of \<open>ClaimTransaction\<close>: \<open>_id\<close>, and for the two known actions the completion
  flag of that action not being true.
\<close>

definition claimFilter :: "string \<Rightarrow> string \<Rightarrow> Transaction \<Rightarrow> bool" where
  "claimFilter transactionID action t =
     (TransactionID t = transactionID \<and>
      (if action = ''start'' then \<not> StartActionCompleted t
       else if action = ''end'' then \<not> EndActionCompleted t
       else True))"

definition ClaimTransaction :: "env \<Rightarrow> string \<Rightarrow> string \<Rightarrow> world \<Rightarrow> (error + bool) \<times> world" where
  "ClaimTransaction e transactionID action w =
     (if fails e (ClaimTransaction_UpdateOne transactionID action) then (Inl ErrDriver, w)
      else case UpdateOne (claimFilter transactionID action) (\<lambda>t. t\<lparr>UpdatedAt := now e\<rparr>)
                  (transactions w) of
        (MatchedCount, ds) \<Rightarrow>
          if MatchedCount = 0 then
            (if fails e (ClaimTransaction_FindOne transactionID) then (Inl ErrDriver, w)
             else case find (\<lambda>t. TransactionID t = transactionID) (transactions w) of
                    None \<Rightarrow> (Inl (ErrTransactionNotFound transactionID), w)
                  | Some t \<Rightarrow> (Inr False, w))
          else (Inr True, w\<lparr>transactions := ds\<rparr>))"

definition MarkTransactionFailed :: "env \<Rightarrow> string \<Rightarrow> string \<Rightarrow> world \<Rightarrow> error option \<times> world" where
  "MarkTransactionFailed e transactionID errorMsg w =
     (if fails e (MarkTransactionFailed_UpdateOne transactionID) then (Some ErrDriver, w)
      else (None, w\<lparr>transactions :=
              snd (UpdateOne (\<lambda>t. TransactionID t = transactionID)
                     (\<lambda>t. t\<lparr>Status := StatusFailed, ErrorMessage := errorMsg, UpdatedAt := now e\<rparr>)
                     (transactions w))\<rparr>))"

definition MarkTransactionCompleted :: "env \<Rightarrow> string \<Rightarrow> world \<Rightarrow> error option \<times> world" where
  "MarkTransactionCompleted e transactionID w =
     (if fails e (MarkTransactionCompleted_UpdateOne transactionID) then (Some ErrDriver, w)
      else (None, w\<lparr>transactions :=
              snd (UpdateOne (\<lambda>t. TransactionID t = transactionID)
                     (\<lambda>t. t\<lparr>Status := StatusCompleted, UpdatedAt := now e\<rparr>)
                     (transactions w))\<rparr>))"

definition StoreDeviceOriginalState ::
  "env \<Rightarrow> string \<Rightarrow> DeviceOriginalState \<Rightarrow> world \<Rightarrow> error option \<times> world" where
  "StoreDeviceOriginalState e deviceID originalState w =
     (let s = originalState\<lparr>DeviceID_os := deviceID, Timestamp_os := now e\<rparr> in
      if fails e (StoreDeviceOriginalState_ReplaceOne deviceID) then (Some ErrDriver, w)
      else (None, w\<lparr>deviceConfigs :=
              ReplaceOne_upsert (\<lambda>d. DeviceID_os d = deviceID) s (deviceConfigs w)\<rparr>))"

definition GetDeviceOriginalState :: "env \<Rightarrow> string \<Rightarrow> world \<Rightarrow> error + DeviceOriginalState" where
  "GetDeviceOriginalState e deviceID w =
     (if fails e (GetDeviceOriginalState_FindOne deviceID) then Inl ErrDriver
      else case find (\<lambda>d. DeviceID_os d = deviceID) (deviceConfigs w) of
             None \<Rightarrow> Inl ErrNoDocuments
           | Some s \<Rightarrow> Inr s)"

text \<open>
  \<open>UpdateDeviceActionStatus\<close>. The positional update \<open>devices.$.<action>Action\<close> writes the
  first device whose \<open>deviceId\<close> matches; the field written is \<open>endAction\<close> exactly when
  the action is \<open>"end"\<close>, the field counted is \<open>startAction\<close> exactly when the action is
  \<open>"start"\<close>.
\<close>

definition statusFilter :: "string \<Rightarrow> string \<Rightarrow> Transaction \<Rightarrow> bool" where
  "statusFilter transactionID deviceID t =
     (TransactionID t = transactionID \<and> list_ex (\<lambda>d. DeviceID d = deviceID) (Devices t))"

definition setAction :: "string \<Rightarrow> DeviceActionStatus \<Rightarrow> TransactionDevice \<Rightarrow> TransactionDevice" where
  "setAction action s d =
     (if action = ''end'' then d\<lparr>EndAction := Some s\<rparr> else d\<lparr>StartAction := Some s\<rparr>)"

definition statusUpdate :: "time \<Rightarrow> string \<Rightarrow> string \<Rightarrow> string \<Rightarrow> Transaction \<Rightarrow> Transaction" where
  "statusUpdate t0 deviceID action status t =
     t\<lparr>Devices := update_first (\<lambda>d. DeviceID d = deviceID)
                     (setAction action \<lparr>Status_das = status, Timestamp_das = t0\<rparr>) (Devices t),
       UpdatedAt := t0\<rparr>"

definition deviceAction :: "string \<Rightarrow> TransactionDevice \<Rightarrow> DeviceActionStatus option" where
  "deviceAction action device = (if action = ''start'' then StartAction device else EndAction device)"

definition completed :: "string \<Rightarrow> TransactionDevice \<Rightarrow> bool" where
  "completed action device =
     (case deviceAction action device of
        None \<Rightarrow> False
      | Some a \<Rightarrow> Status_das a = ''success'' \<or> Status_das a = ''failed'')"

definition notified :: "string \<Rightarrow> Transaction \<Rightarrow> bool" where
  "notified action t = (if action = ''end'' then EndActionNotified t else StartActionNotified t)"

definition notifiedFilter :: "string \<Rightarrow> string \<Rightarrow> Transaction \<Rightarrow> bool" where
  "notifiedFilter transactionID action t =
     (TransactionID t = transactionID \<and> notified action t = False)"

definition notifiedUpdate :: "time \<Rightarrow> string \<Rightarrow> Transaction \<Rightarrow> Transaction" where
  "notifiedUpdate t0 action t =
     (if action = ''end'' then t\<lparr>EndActionNotified := True, UpdatedAt := t0\<rparr>
      else t\<lparr>StartActionNotified := True, UpdatedAt := t0\<rparr>)"

definition UpdateDeviceActionStatus ::
  "env \<Rightarrow> string \<Rightarrow> string \<Rightarrow> string \<Rightarrow> string \<Rightarrow> world \<Rightarrow> (error + bool) \<times> world" where
  "UpdateDeviceActionStatus e transactionID deviceID action status w =
     (if fails e (UpdateDeviceActionStatus_FindOneAndUpdate transactionID deviceID action status)
      then (Inl ErrDriver, w)
      else case FindOneAndUpdate (statusFilter transactionID deviceID)
                  (statusUpdate (now e) deviceID action status) (transactions w) of
        (None, ds) \<Rightarrow> (Inl ErrNoDocuments, w)
      | (Some transaction, ds) \<Rightarrow>
          (let completedCount = length (filter (completed action) (Devices transaction));
               totalDevices = length (Devices transaction)
           in if completedCount = totalDevices \<and> totalDevices > 0 then
                (if fails e (UpdateDeviceActionStatus_UpdateOne transactionID deviceID action status)
                 then (Inl ErrDriver, w\<lparr>transactions := ds\<rparr>)
                 else case UpdateOne (notifiedFilter transactionID action)
                             (notifiedUpdate (now e) action) ds of
                   (MatchedCount, ds') \<Rightarrow> (Inr (MatchedCount = 1), w\<lparr>transactions := ds'\<rparr>))
              else (Inr False, w\<lparr>transactions := ds\<rparr>)))"

section \<open>Collaborators behind interfaces\<close>

text \<open>
  \<open>easyapi.Client\<close> and \<open>event.Sender\<close> are interfaces to systems outside the
  repository. A call is recorded in the world whether or not it succeeds; its outcome is
  the environment's.
\<close>

definition GetDeviceConfig :: "env \<Rightarrow> Device \<Rightarrow> world \<Rightarrow> (error + DeviceConfig) \<times> world" where
  "GetDeviceConfig e device w =
     ((if fails e (Client_GetDeviceConfig device) then Inl ErrClient else Inr (nefConfig e device)),
      w\<lparr>nefCalls := nefCalls w @ [GetDeviceConfig_call device]\<rparr>)"

definition SetDeviceConfig :: "env \<Rightarrow> Device \<Rightarrow> DeviceConfig \<Rightarrow> world \<Rightarrow> error option \<times> world" where
  "SetDeviceConfig e device config w =
     ((if fails e (Client_SetDeviceConfig device config) then Some ErrClient else None),
      w\<lparr>nefCalls := nefCalls w @ [SetDeviceConfig_call device config]\<rparr>)"

definition Send ::
  "env \<Rightarrow> string \<Rightarrow> EventType \<Rightarrow> Source \<Rightarrow> EventData \<Rightarrow> world \<Rightarrow> error option \<times> world" where
  "Send e requestID eventType source data w =
     ((if fails e (Sender_Send requestID) then Some ErrUndelivered else None),
      w\<lparr>sent := sent w @ [SendCall requestID eventType source data]\<rparr>)"

section \<open>Worker (package worker)\<close>

text \<open>
  The body of \<open>processDevice\<close> between the two status updates: it selects the operation
  from \<open>action\<close> and \<open>enabled\<close>, performs it and yields \<open>finalStatus\<close>.
\<close>

definition finalStatus ::
  "PowerSaving \<Rightarrow> env \<Rightarrow> Device \<Rightarrow> string \<Rightarrow> string \<Rightarrow> bool \<Rightarrow> world \<Rightarrow> string \<times> world" where
  "finalStatus config e device deviceID action enabled w =
     (if action = ActionStart then
        (if enabled then
           (case GetDeviceConfig e device w of
              (Inl err, w1) \<Rightarrow> (''failed'', w1)
            | (Inr currentConfig, w1) \<Rightarrow>
                (case StoreDeviceOriginalState e deviceID
                        \<lparr>DeviceID_os = [],
                         PpMaximumLatency_os = PpMaximumLatency currentConfig,
                         PpMaximumResponseTime_os = PpMaximumResponseTime currentConfig,
                         Timestamp_os = 0\<rparr> w1 of
                   (Some err, w2) \<Rightarrow> (''failed'', w2)
                 | (None, w2) \<Rightarrow>
                     (case SetDeviceConfig e device
                             \<lparr>PpMaximumLatency = MaxLatency config,
                              PpMaximumResponseTime = MaxResponseTime config\<rparr> w2 of
                        (Some err, w3) \<Rightarrow> (''failed'', w3)
                      | (None, w3) \<Rightarrow> (''success'', w3))))
         else
           (case GetDeviceOriginalState e deviceID w of
              Inl err \<Rightarrow> (''failed'', w)
            | Inr storedState \<Rightarrow>
                (case SetDeviceConfig e device
                        \<lparr>PpMaximumLatency = PpMaximumLatency_os storedState,
                         PpMaximumResponseTime = PpMaximumResponseTime_os storedState\<rparr> w of
                   (Some err, w1) \<Rightarrow> (''failed'', w1)
                 | (None, w1) \<Rightarrow> (''success'', w1))))
      else if action = ActionEnd then
        (if enabled then
           (case GetDeviceOriginalState e deviceID w of
              Inl err \<Rightarrow> (''failed'', w)
            | Inr storedState \<Rightarrow>
                (case SetDeviceConfig e device
                        \<lparr>PpMaximumLatency = PpMaximumLatency_os storedState,
                         PpMaximumResponseTime = PpMaximumResponseTime_os storedState\<rparr> w of
                   (Some err, w1) \<Rightarrow> (''failed'', w1)
                 | (None, w1) \<Rightarrow> (''success'', w1)))
         else
           (case SetDeviceConfig e device
                   \<lparr>PpMaximumLatency = MaxLatency config,
                    PpMaximumResponseTime = MaxResponseTime config\<rparr> w of
              (Some err, w1) \<Rightarrow> (''failed'', w1)
            | (None, w1) \<Rightarrow> (''success'', w1)))
      else (''success'', w))"

definition markTransactionCompleteIfDone ::
  "env \<Rightarrow> string \<Rightarrow> string \<Rightarrow> world \<Rightarrow> error option \<times> world" where
  "markTransactionCompleteIfDone e transactionID action w =
     (case GetTransaction e transactionID w of
        Inl err \<Rightarrow> (Some err, w)
      | Inr transaction \<Rightarrow>
          (let shouldComplete =
                 (if action = ActionStart \<and> EndAt transaction = None then True
                  else if action = ActionEnd then True
                  else False)
           in if shouldComplete then MarkTransactionCompleted e transactionID w
              else (None, w)))"

definition processDevice ::
  "PowerSaving \<Rightarrow> env \<Rightarrow> string \<Rightarrow> Device \<Rightarrow> string \<Rightarrow> string \<Rightarrow> bool \<Rightarrow> SubscriptionRequest
     \<Rightarrow> world \<Rightarrow> error option \<times> world" where
  "processDevice config e transactionID device deviceID action enabled subscriptionRequest w =
     (case UpdateDeviceActionStatus e transactionID deviceID action ''in-progress'' w of
        (Inl err, w1) \<Rightarrow> (Some (Errorf ''update status to in-progress'' err), w1)
      | (Inr _, w1) \<Rightarrow>
          (case finalStatus config e device deviceID action enabled w1 of
             (fs, w2) \<Rightarrow>
               (case UpdateDeviceActionStatus e transactionID deviceID action fs w2 of
                  (Inl err, w3) \<Rightarrow> (Some (Errorf ''update device status'' err), w3)
                | (Inr allComplete, w3) \<Rightarrow>
                    if allComplete then
                      (case Send e (transactionID @ ''-'' @ action @ ''-all-completed'')
                              EventTypeAllDevicesCompleted SourceiotWorker
                              (AllDevicesCompletedData transactionID action (now e)
                                 subscriptionRequest) w3 of
                         (Some err, w4) \<Rightarrow>
                           (Some (Errorf ''send all-devices.completed event'' err), w4)
                       | (None, w4) \<Rightarrow>
                           (None, snd (markTransactionCompleteIfDone e transactionID action w4)))
                    else (None, w3))))"

section \<open>Scheduler (package scheduler)\<close>

text \<open>
  \<open>time.Until(t)\<close> is \<open>t.Sub(time.Now())\<close>, which saturates at the smallest and largest
  \<open>Duration\<close> (a signed 64-bit count of nanoseconds).
\<close>

definition Until :: "env \<Rightarrow> time \<Rightarrow> int" where
  "Until e t = max (- (2 ^ 63)) (min (2 ^ 63 - 1) (t - now e))"

definition clampDelay :: "int \<Rightarrow> int" where
  "clampDelay d = (if d < 0 then 0 else d)"

definition arm :: "string \<Rightarrow> int \<Rightarrow> scheduleAction \<Rightarrow> world \<Rightarrow> world" where
  "arm timerKey delay a w =
     w\<lparr>armed := armed w @ [AfterFunc delay a],
       timers := (timers w)(timerKey \<mapsto> AfterFunc delay a)\<rparr>"

definition sendErrorNotification ::
  "env \<Rightarrow> string \<Rightarrow> string \<Rightarrow> string \<Rightarrow> string \<Rightarrow> SubscriptionRequest \<Rightarrow> world \<Rightarrow> world" where
  "sendErrorNotification e transactionID action errorCode errorMessage subscriptionRequest w =
     (if Sink subscriptionRequest = [] then w
      else snd (Send e (transactionID @ ''-'' @ action @ ''-error'') EventTypePowerSavingError
                  SourceiotScheduler
                  (ErrorNotificationData transactionID 500 errorCode errorMessage action
                     subscriptionRequest) w))"

text \<open>The device loop of \<open>handleScheduleRequested\<close>: a device without identifier is skipped.\<close>

fun newDevices :: "time \<Rightarrow> Device list \<Rightarrow> TransactionDevice list" where
  "newDevices t0 [] = []"
| "newDevices t0 (device # rest) =
     (case NetworkAccessIdentifier device of
        None \<Rightarrow> newDevices t0 rest
      | Some deviceID \<Rightarrow>
          \<lparr>DeviceID = deviceID, Device = device,
           StartAction = Some \<lparr>Status_das = ''pending'', Timestamp_das = t0\<rparr>,
           EndAction = None\<rparr> # newDevices t0 rest)"

definition handleScheduleRequested ::
  "env \<Rightarrow> ScheduleRequestedData \<Rightarrow> world \<Rightarrow> error option \<times> world" where
  "handleScheduleRequested e data w =
     (let devices = newDevices (now e) (Devices_sr data);
          transaction =
            \<lparr>TransactionID = TransactionID_sr data, StartAt = StartAt_sr data,
             EndAt = EndAt_sr data, Enabled = Enabled_sr data,
             SubscriptionRequest = SubscriptionRequest_sr data, Status = StatusPending,
             CreatedAt = 0, UpdatedAt = 0, ErrorMessage = [], Devices = devices,
             StartActionCompleted = False, EndActionCompleted = False,
             StartActionNotified = False, EndActionNotified = False\<rparr>
      in case CreateTransaction e transaction w of
           (Some err, w1) \<Rightarrow>
             (Some (Errorf ''create transaction'' err),
              sendErrorNotification e (TransactionID_sr data) ActionStart ''INTERNAL_ERROR''
                ''Failed to create transaction in database'' (SubscriptionRequest_sr data) w1)
         | (None, w1) \<Rightarrow>
             (None,
              arm (TransactionID_sr data @ ''-start'') (clampDelay (Until e (StartAt_sr data)))
                (ScheduleAction (TransactionID_sr data) ActionStart (SubscriptionRequest_sr data))
                w1))"

text \<open>
  \<open>handleAllDevicesCompleted\<close> on the decoded payload
  \<open>AllDevicesCompletedData{TransactionID, Action, ...}\<close>.
\<close>

definition handleAllDevicesCompleted ::
  "env \<Rightarrow> string \<Rightarrow> string \<Rightarrow> world \<Rightarrow> error option \<times> world" where
  "handleAllDevicesCompleted e transactionID action w =
     (if action \<noteq> ActionStart then (None, w)
      else case GetTransaction e transactionID w of
             Inl err \<Rightarrow> (Some (Errorf ''get transaction'' err), w)
           | Inr transaction \<Rightarrow>
               (case EndAt transaction of
                  None \<Rightarrow> (None, w)
                | Some endAt \<Rightarrow>
                    (None,
                     arm (transactionID @ ''-end'') (clampDelay (Until e endAt))
                       (ScheduleAction transactionID ActionEnd (SubscriptionRequest transaction))
                       w)))"

text \<open>The loop body of \<open>loadPendingSchedules\<close>, and the loop.\<close>

definition restore :: "env \<Rightarrow> Transaction \<Rightarrow> world \<Rightarrow> world" where
  "restore e tx w =
     (let w1 = (if \<not> StartActionCompleted tx
                then arm (TransactionID tx @ ''-start'') (clampDelay (Until e (StartAt tx)))
                       (ScheduleAction (TransactionID tx) ActionStart (SubscriptionRequest tx)) w
                else w)
      in case EndAt tx of
           None \<Rightarrow> w1
         | Some endAt \<Rightarrow>
             if StartActionCompleted tx \<and> \<not> EndActionCompleted tx
             then arm (TransactionID tx @ ''-end'') (clampDelay (Until e endAt))
                    (ScheduleAction (TransactionID tx) ActionEnd (SubscriptionRequest tx)) w1
             else w1)"

definition loadPendingSchedules :: "env \<Rightarrow> world \<Rightarrow> error option \<times> world" where
  "loadPendingSchedules e w =
     (case GetPendingTransactions e w of
        Inl err \<Rightarrow> (Some (Errorf ''get pending transactions'' err), w)
      | Inr txs \<Rightarrow> (None, fold (restore e) txs w))"

text \<open>\<open>%d\<close> of a slice index.\<close>

definition digit :: "nat \<Rightarrow> char" where
  "digit n = char_of (48 + n)"

function decimal :: "nat \<Rightarrow> string" where
  "decimal n = (if n < 10 then [digit n] else decimal (n div 10) @ [digit (n mod 10)])"
  by pat_completeness auto
termination
  by (relation "measure id") auto

declare decimal.simps [simp del]

text \<open>The publishing loop of \<open>fireSchedule\<close>, from index \<open>i\<close>; a failed publish is only logged.\<close>

fun publish ::
  "env \<Rightarrow> Transaction \<Rightarrow> scheduleAction \<Rightarrow> bool \<Rightarrow> nat \<Rightarrow> TransactionDevice list \<Rightarrow> world \<Rightarrow> world"
  where
  "publish e transaction a enabledValue i [] w = w"
| "publish e transaction (ScheduleAction tid action sub) enabledValue i (txDevice # rest) w =
     publish e transaction (ScheduleAction tid action sub) enabledValue (Suc i) rest
       (snd (Send e (TransactionID transaction @ ''-'' @ action @ ''-device-'' @ decimal i)
               EventTypeDeviceActuationRequest SourceiotScheduler
               (DeviceActuationRequestData (Device txDevice) enabledValue
                  (TransactionID transaction) action sub) w))"

definition fireSchedule :: "env \<Rightarrow> scheduleAction \<Rightarrow> world \<Rightarrow> error option \<times> world" where
  "fireSchedule e schedAction w =
     (case schedAction of ScheduleAction transactionID action subscriptionRequest \<Rightarrow>
        (case ClaimTransaction e transactionID action w of
           (Inl err, w1) \<Rightarrow>
             (Some (Errorf ''claim transaction'' err),
              sendErrorNotification e transactionID action ''INTERNAL_ERROR''
                ''Failed to claim transaction in database'' subscriptionRequest w1)
         | (Inr claimed, w1) \<Rightarrow>
             if \<not> claimed then (None, w1)
             else
               (case GetTransaction e transactionID w1 of
                  Inl err \<Rightarrow>
                    (Some (Errorf ''get transaction'' err),
                     sendErrorNotification e transactionID action ''INTERNAL_ERROR''
                       ''Failed to retrieve transaction data from database'' subscriptionRequest
                       (snd (MarkTransactionFailed e transactionID
                               ''failed to retrieve transaction data'' w1)))
                | Inr transaction \<Rightarrow>
                    (let enabledValue =
                           (if action = ActionEnd then \<not> Enabled transaction
                            else Enabled transaction)
                     in (None,
                         publish e transaction schedAction enabledValue 0
                           (Devices transaction) w1)))))"

section \<open>Admission (package api)\<close>




section \<open>Histories of the transactions collection\<close>

text \<open>
  Handlers of several service instances run concurrently; what the store serialises is the
  single driver operation. Every write the repository issues on the transactions
  collection is one of the following (the retention delete is outside the specified
  core), with the filter and update document of the method that issues it.
\<close>

datatype store_write =
    Insert_w Transaction
  | Claim_w string string time
  | MarkFailed_w string string time
  | MarkCompleted_w string time
  | Status_w string string string string time
  | Notify_w string string time

fun apply_write :: "store_write \<Rightarrow> Transaction list \<Rightarrow> nat \<times> Transaction list" where
  "apply_write (Insert_w t) ds =
     (case InsertOne TransactionID t ds of None \<Rightarrow> (0, ds) | Some ds' \<Rightarrow> (1, ds'))"
| "apply_write (Claim_w transactionID action t0) ds =
     UpdateOne (claimFilter transactionID action) (\<lambda>t. t\<lparr>UpdatedAt := t0\<rparr>) ds"
| "apply_write (MarkFailed_w transactionID errorMsg t0) ds =
     UpdateOne (\<lambda>t. TransactionID t = transactionID)
       (\<lambda>t. t\<lparr>Status := StatusFailed, ErrorMessage := errorMsg, UpdatedAt := t0\<rparr>) ds"
| "apply_write (MarkCompleted_w transactionID t0) ds =
     UpdateOne (\<lambda>t. TransactionID t = transactionID)
       (\<lambda>t. t\<lparr>Status := StatusCompleted, UpdatedAt := t0\<rparr>) ds"
| "apply_write (Status_w transactionID deviceID action status t0) ds =
     UpdateOne (statusFilter transactionID deviceID) (statusUpdate t0 deviceID action status) ds"
| "apply_write (Notify_w transactionID action t0) ds =
     UpdateOne (notifiedFilter transactionID action) (notifiedUpdate t0 action) ds"

text \<open>
  An election for the notified flag of a transaction and phase: the conditional update of
  \<open>UpdateDeviceActionStatus\<close>. The flag is \<open>endActionNotified\<close> for \<open>"end"\<close> and
  \<open>startActionNotified\<close> for any other action.
\<close>

fun is_election :: "string \<Rightarrow> string \<Rightarrow> store_write \<Rightarrow> bool" where
  "is_election transactionID action (Notify_w k a t0) =
     (k = transactionID \<and> (a = ''end'') = (action = ''end''))"
| "is_election transactionID action x = False"

text \<open>The number of elections won (\<open>MatchedCount = 1\<close>) along a history of writes.\<close>

fun elections_won :: "string \<Rightarrow> string \<Rightarrow> store_write list \<Rightarrow> Transaction list \<Rightarrow> nat" where
  "elections_won transactionID action [] ds = 0"
| "elections_won transactionID action (x # xs) ds =
     (if is_election transactionID action x \<and> fst (apply_write x ds) = 1 then 1 else 0)
     + elections_won transactionID action xs (snd (apply_write x ds))"

text \<open>
  Observations: the stored status of a device for an action (the field the positional
  update writes), and the \<open>AllDevicesCompleted\<close> publishes for a transaction and action.
\<close>

definition actionField :: "string \<Rightarrow> TransactionDevice \<Rightarrow> DeviceActionStatus option" where
  "actionField action d = (if action = ''end'' then EndAction d else StartAction d)"

definition status_of :: "string \<Rightarrow> string \<Rightarrow> string \<Rightarrow> world \<Rightarrow> string option" where
  "status_of transactionID deviceID action w =
     (case find (statusFilter transactionID deviceID) (transactions w) of
        None \<Rightarrow> None
      | Some t \<Rightarrow>
          (case find (\<lambda>d. DeviceID d = deviceID) (Devices t) of
             None \<Rightarrow> None
           | Some d \<Rightarrow> map_option Status_das (actionField action d)))"

fun is_AllDevicesCompleted :: "string \<Rightarrow> string \<Rightarrow> SentEvent \<Rightarrow> bool" where
  "is_AllDevicesCompleted transactionID action
     (SendCall i EventTypeAllDevicesCompleted s (AllDevicesCompletedData k a c r)) =
     (k = transactionID \<and> a = action)"
| "is_AllDevicesCompleted transactionID action x = False"

fun is_DeviceActuationRequest :: "SentEvent \<Rightarrow> bool" where
  "is_DeviceActuationRequest (SendCall i EventTypeDeviceActuationRequest s d) = True"
| "is_DeviceActuationRequest x = False"

text \<open>The state of the collection after a history of writes.\<close>

definition history :: "store_write list \<Rightarrow> Transaction list \<Rightarrow> Transaction list" where
  "history ws ds = fold (\<lambda>x ds. snd (apply_write x ds)) ws ds"

text \<open>
  A run of the worker over a sequence of deliveries, one after the other. A delivery is a
  decoded \<open>DeviceActuationRequest\<close> together with the environment of its handling; the
  same request may occur any number of times.
\<close>

fun worker_run ::
  "PowerSaving \<Rightarrow> (env \<times> string \<times> Device \<times> string \<times> string \<times> bool \<times> SubscriptionRequest) list
     \<Rightarrow> world \<Rightarrow> world" where
  "worker_run config [] w = w"
| "worker_run config ((e, transactionID, device, deviceID, action, enabled, sub) # rest) w =
     worker_run config rest
       (snd (processDevice config e transactionID device deviceID action enabled sub w))"

text \<open>The status one row stores for a device and action.\<close>

definition row_status :: "string \<Rightarrow> string \<Rightarrow> Transaction \<Rightarrow> string option" where
  "row_status did a t =
     (case find (\<lambda>d. DeviceID d = did) (Devices t) of
        None \<Rightarrow> None
      | Some d \<Rightarrow> map_option Status_das (actionField a d))"

text \<open>The condition under which startup recovery arms an end timer for a row.\<close>

definition recoverable_end :: "Transaction \<Rightarrow> bool" where
  "recoverable_end tx = (EndAt tx \<noteq> None \<and> StartActionCompleted tx \<and> \<not> EndActionCompleted tx)"

text \<open>
  Deliveries of one \<open>ScheduleRequested\<close> event to the scheduler, one after the other,
  each in its own environment.
\<close>

fun scheduler_replay :: "env list \<Rightarrow> ScheduleRequestedData \<Rightarrow> world \<Rightarrow> world" where
  "scheduler_replay [] data w = w"
| "scheduler_replay (e # es) data w =
     scheduler_replay es data (snd (handleScheduleRequested e data w))"

section \<open>Example data\<close>

definition device1 :: Device where
  "device1 = \<lparr>Ipv4Address = None, Ipv6Address = None,
              NetworkAccessIdentifier = Some ''d1'', PhoneNumber = None\<rparr>"

definition sink1 :: SubscriptionRequest where
  "sink1 = \<lparr>Protocol = ''HTTP'', Sink = ''http://cb''\<rparr>"

definition transaction1 :: Transaction where
  "transaction1 =
     \<lparr>TransactionID = ''t1'', StartAt = 5, EndAt = None, Enabled = True,
      SubscriptionRequest = sink1, Status = StatusPending, CreatedAt = 1, UpdatedAt = 1,
      ErrorMessage = [],
      Devices = [\<lparr>DeviceID = ''d1'', Device = device1,
                  StartAction = Some \<lparr>Status_das = ''pending'', Timestamp_das = 1\<rparr>,
                  EndAction = None\<rparr>],
      StartActionCompleted = False, EndActionCompleted = False,
      StartActionNotified = False, EndActionNotified = False\<rparr>"

definition world1 :: world where
  "world1 = \<lparr>transactions = [transaction1], deviceConfigs = [], nefCalls = [], sent = [],
             armed = [], timers = Map.empty\<rparr>"

definition world0 :: world where
  "world0 = \<lparr>transactions = [], deviceConfigs = [], nefCalls = [], sent = [],
             armed = [], timers = Map.empty\<rparr>"

definition env_ok :: env where
  "env_ok = \<lparr>now = 10, fails = (\<lambda>c. False),
             nefConfig = (\<lambda>d. \<lparr>PpMaximumLatency = ''100'', PpMaximumResponseTime = ''200''\<rparr>)\<rparr>"

definition config1 :: PowerSaving where
  "config1 = \<lparr>MaxLatency = ''1'', MaxResponseTime = ''1''\<rparr>"

text \<open>An environment in which every \<open>SetDeviceConfig\<close> fails.\<close>

definition env_set_fails :: env where
  "env_set_fails = \<lparr>now = 10, fails = (\<lambda>c. case c of Client_SetDeviceConfig d k \<Rightarrow> True | _ \<Rightarrow> False),
             nefConfig = (\<lambda>d. \<lparr>PpMaximumLatency = ''100'', PpMaximumResponseTime = ''200''\<rparr>)\<rparr>"

text \<open>A transaction with an end instant and two devices, after its start phase.\<close>

definition transaction2 :: Transaction where
  "transaction2 =
     \<lparr>TransactionID = ''t2'', StartAt = 5, EndAt = Some 20, Enabled = True,
      SubscriptionRequest = sink1, Status = StatusPending, CreatedAt = 1, UpdatedAt = 1,
      ErrorMessage = [],
      Devices = [\<lparr>DeviceID = ''d1'', Device = device1,
                  StartAction = Some \<lparr>Status_das = ''success'', Timestamp_das = 6\<rparr>,
                  EndAction = None\<rparr>,
                 \<lparr>DeviceID = ''d2'', Device = device1\<lparr>NetworkAccessIdentifier := Some ''d2''\<rparr>,
                  StartAction = Some \<lparr>Status_das = ''failed'', Timestamp_das = 6\<rparr>,
                  EndAction = None\<rparr>],
      StartActionCompleted = False, EndActionCompleted = False,
      StartActionNotified = True, EndActionNotified = False\<rparr>"

definition world2 :: world where
  "world2 = \<lparr>transactions = [transaction2], deviceConfigs = [], nefCalls = [], sent = [],
             armed = [], timers = Map.empty\<rparr>"

text \<open>A schedule request whose only device carries no network access identifier.\<close>

definition request_no_nai :: ScheduleRequestedData where
  "request_no_nai =
     \<lparr>StartAt_sr = 5, EndAt_sr = None,
      Devices_sr = [\<lparr>Ipv4Address = None, Ipv6Address = None, NetworkAccessIdentifier = None,
                     PhoneNumber = Some ''+11111''\<rparr>],
      Enabled_sr = True, SubscriptionRequest_sr = sink1, TransactionID_sr = ''t3''\<rparr>"


text \<open>The world of \<open>world1\<close> with the transaction already completed, and with its start
  action marked completed.\<close>

definition world1_completed :: world where
  "world1_completed = world1\<lparr>transactions := [transaction1\<lparr>Status := StatusCompleted\<rparr>]\<rparr>"

definition world1_started :: world where
  "world1_started = world1\<lparr>transactions := [transaction1\<lparr>StartActionCompleted := True\<rparr>]\<rparr>"

text \<open>The schedule request that creates \<open>transaction1\<close>.\<close>

definition request1 :: ScheduleRequestedData where
  "request1 =
     \<lparr>StartAt_sr = 5, EndAt_sr = None, Devices_sr = [device1], Enabled_sr = True,
      SubscriptionRequest_sr = sink1, TransactionID_sr = ''t1''\<rparr>"

text \<open>
  The world of \<open>world2\<close> with the start action marked completed, as startup recovery
  may find it, and an environment whose clock is past the end instant.
\<close>

definition world2_recovering :: world where
  "world2_recovering = world2\<lparr>transactions := [transaction2\<lparr>StartActionCompleted := True\<rparr>]\<rparr>"

definition env_late :: env where
  "env_late = \<lparr>now = 30, fails = (\<lambda>c. False),
               nefConfig = (\<lambda>d. \<lparr>PpMaximumLatency = ''100'', PpMaximumResponseTime = ''200''\<rparr>)\<rparr>"

section \<open>Facts about the store\<close>

lemma update_first_keys:
  "(\<And>d. key (f d) = key d) \<Longrightarrow> map key (update_first P f ds) = map key ds"
  by (induction ds) auto


lemma find_distinct_key:
  "distinct (map key ds) \<Longrightarrow> x \<in> set ds \<Longrightarrow> find (\<lambda>d. key d = key x) ds = Some x"
  by (induction ds) (auto simp: rev_image_eqI)

lemma list_ex_set: "list_ex P ds \<longleftrightarrow> (\<exists>x\<in>set ds. P x)"
  by (simp add: list_ex_iff)

lemma statusUpdate_id [simp]: "TransactionID (statusUpdate t0 did a st t) = TransactionID t"
  by (simp add: statusUpdate_def)

lemma notifiedUpdate_id [simp]: "TransactionID (notifiedUpdate t0 a t) = TransactionID t"
  by (simp add: notifiedUpdate_def)

lemma statusUpdate_notified [simp]: "notified a' (statusUpdate t0 did a st t) = notified a' t"
  by (simp add: statusUpdate_def notified_def)

lemma notifiedUpdate_notified:
  "notified a' (notifiedUpdate t0 a t) = (notified a' t \<or> (a = ''end'') = (a' = ''end''))"
  by (auto simp: notifiedUpdate_def notified_def)

lemma apply_write_keys:
  "map TransactionID (snd (apply_write x ds)) = map TransactionID ds
   \<or> (\<exists>k. k \<notin> set (map TransactionID ds)
          \<and> map TransactionID (snd (apply_write x ds)) = map TransactionID ds @ [k])"
  by (cases x) (auto simp: UpdateOne_def InsertOne_def update_first_keys list_ex_iff
                     split: option.splits)

lemma apply_write_distinct:
  "distinct (map TransactionID ds) \<Longrightarrow> distinct (map TransactionID (snd (apply_write x ds)))"
  using apply_write_keys[of x ds] by auto

lemma find_append_Some: "find P ds = Some t \<Longrightarrow> find P (ds @ es) = Some t"
  by (induction ds) auto

lemma update_first_preserves:
  assumes "find (\<lambda>t. TransactionID t = k) ds = Some t" and "notified a t"
      and "\<And>d. TransactionID (f d) = TransactionID d"
      and "\<And>d. notified a d \<Longrightarrow> notified a (f d)"
  shows "\<exists>t'. find (\<lambda>t. TransactionID t = k) (update_first P f ds) = Some t' \<and> notified a t'"
  using assms by (induction ds) (auto split: if_splits)

lemma find_update_first_hit:
  assumes "find (\<lambda>t. TransactionID t = k) ds = Some y" and "P y"
      and "\<And>d. TransactionID (f d) = TransactionID d" and "\<And>d. P d \<Longrightarrow> TransactionID d = k"
  shows "find (\<lambda>t. TransactionID t = k) (update_first P f ds) = Some (f y)"
  using assms by (induction ds) (auto split: if_splits)

lemma apply_write_notified:
  assumes "find (\<lambda>t. TransactionID t = k) ds = Some t" and "notified a t"
  shows "\<exists>t'. find (\<lambda>t. TransactionID t = k) (snd (apply_write x ds)) = Some t' \<and> notified a t'"
proof (cases x)
  case (Insert_w n)
  then show ?thesis using assms
    by (auto simp: InsertOne_def find_append_Some)
next
  case (Claim_w tid act t0)
  then show ?thesis
    using update_first_preserves[OF assms, of "\<lambda>t. t\<lparr>UpdatedAt := t0\<rparr>"]
    by (simp add: UpdateOne_def notified_def)
next
  case (MarkFailed_w tid m t0)
  then show ?thesis
    using update_first_preserves[OF assms,
            of "\<lambda>t. t\<lparr>Status := StatusFailed, ErrorMessage := m, UpdatedAt := t0\<rparr>"]
    by (simp add: UpdateOne_def notified_def)
next
  case (MarkCompleted_w tid t0)
  then show ?thesis
    using update_first_preserves[OF assms,
            of "\<lambda>t. t\<lparr>Status := StatusCompleted, UpdatedAt := t0\<rparr>"]
    by (simp add: UpdateOne_def notified_def)
next
  case (Status_w tid did act st t0)
  then show ?thesis
    using update_first_preserves[OF assms, of "statusUpdate t0 did act st"]
    by (simp add: UpdateOne_def)
next
  case (Notify_w tid act t0)
  then show ?thesis
    using update_first_preserves[OF assms, of "notifiedUpdate t0 act"]
    by (simp add: UpdateOne_def notifiedUpdate_notified)
qed

lemma election_lost_when_notified:
  assumes "distinct (map TransactionID ds)"
      and "find (\<lambda>t. TransactionID t = k) ds = Some t" and "notified a t"
      and "is_election k a x"
  shows "fst (apply_write x ds) = 0"
proof -
  obtain a' t0 where x: "x = Notify_w k a' t0" and a': "(a' = ''end'') = (a = ''end'')"
    using assms(4) by (cases x) auto
  have "notified a' t" using assms(3) a' by (auto simp: notified_def)
  moreover have "\<And>y. y \<in> set ds \<Longrightarrow> TransactionID y = k \<Longrightarrow> y = t"
    using find_distinct_key[OF assms(1)] assms(2) by fastforce
  ultimately show ?thesis
    using x by (auto simp: UpdateOne_def notifiedFilter_def list_ex_iff)
qed

lemma election_won_sets_flag:
  assumes "distinct (map TransactionID ds)" and "is_election k a x"
      and "fst (apply_write x ds) = 1"
  shows "\<exists>t'. find (\<lambda>t. TransactionID t = k) (snd (apply_write x ds)) = Some t' \<and> notified a t'"
proof -
  obtain a' t0 where x: "x = Notify_w k a' t0" and a': "(a' = ''end'') = (a = ''end'')"
    using assms(2) by (cases x) auto
  from assms(3) x obtain y where y: "y \<in> set ds" "TransactionID y = k" "\<not> notified a' y"
    by (auto simp: UpdateOne_def notifiedFilter_def list_ex_iff split: if_splits)
  have "find (\<lambda>t. TransactionID t = k) ds = Some y"
    using find_distinct_key[OF assms(1) y(1)] y(2) by simp
  then have "find (\<lambda>t. TransactionID t = k)
               (update_first (notifiedFilter k a') (notifiedUpdate t0 a') ds)
             = Some (notifiedUpdate t0 a' y)"
    using y by (intro find_update_first_hit[where P="notifiedFilter k a'"])
               (auto simp: notifiedFilter_def)
  then show ?thesis using x a'
    by (auto simp: UpdateOne_def notifiedUpdate_notified)
qed

lemma no_election_after_notified:
  "distinct (map TransactionID ds) \<Longrightarrow> find (\<lambda>t. TransactionID t = k) ds = Some t \<Longrightarrow>
     notified a t \<Longrightarrow> elections_won k a xs ds = 0"
proof (induction xs arbitrary: ds t)
  case Nil
  then show ?case by simp
next
  case (Cons x xs)
  obtain t' where t': "find (\<lambda>t. TransactionID t = k) (snd (apply_write x ds)) = Some t'"
      "notified a t'"
    using apply_write_notified[OF Cons.prems(2,3)] by blast
  have "elections_won k a xs (snd (apply_write x ds)) = 0"
    using Cons.IH[OF apply_write_distinct[OF Cons.prems(1)] t'] .
  moreover have "is_election k a x \<Longrightarrow> fst (apply_write x ds) = 0"
    using election_lost_when_notified[OF Cons.prems] .
  ultimately show ?case by auto
qed

lemma elections_won_le_1:
  "distinct (map TransactionID ds) \<Longrightarrow> elections_won k a xs ds \<le> 1"
proof (induction xs arbitrary: ds)
  case Nil
  then show ?case by simp
next
  case (Cons x xs)
  show ?case
  proof (cases "is_election k a x \<and> fst (apply_write x ds) = 1")
    case True
    then obtain t' where "find (\<lambda>t. TransactionID t = k) (snd (apply_write x ds)) = Some t'"
      "notified a t'"
      using election_won_sets_flag[OF Cons.prems] by blast
    then have "elections_won k a xs (snd (apply_write x ds)) = 0"
      using no_election_after_notified[OF apply_write_distinct[OF Cons.prems]] by blast
    with True show ?thesis by simp
  next
    case False
    then show ?thesis
      using Cons.IH[OF apply_write_distinct[OF Cons.prems]] by auto
  qed
qed

lemma history_simps [simp]:
  "history [] ds = ds"
  "history (x # xs) ds = history xs (snd (apply_write x ds))"
  "history (xs @ ys) ds = history ys (history xs ds)"
  by (simp_all add: history_def)

lemma elections_won_append:
  "elections_won k a (xs @ ys) ds = elections_won k a xs ds + elections_won k a ys (history xs ds)"
  by (induction xs arbitrary: ds) auto

lemma history_distinct:
  "distinct (map TransactionID ds) \<Longrightarrow> distinct (map TransactionID (history ws ds))"
  by (induction ws arbitrary: ds) (auto simp: apply_write_distinct)

lemma UpdateDeviceActionStatus_writes:
  assumes "UpdateDeviceActionStatus e tid did a st w = (r, w')"
  shows "w' = w\<lparr>transactions := transactions w'\<rparr> \<and>
     (\<exists>ws. transactions w' = history ws (transactions w)
        \<and> (if r = Inr True then 1 else 0) \<le> elections_won tid a ws (transactions w)
        \<and> (\<forall>k b. (k, b = ''end'') \<noteq> (tid, a = ''end'') \<longrightarrow>
               elections_won k b ws (transactions w) = 0))"
proof -
  let ?S = "Status_w tid did a st (now e)"
  let ?N = "Notify_w tid a (now e)"
  let ?ds = "transactions w"
  consider (none) "w' = w" "r \<noteq> Inr True"
    | (one) "w' = w\<lparr>transactions := history [?S] ?ds\<rparr>" "r \<noteq> Inr True"
    | (two) "w' = w\<lparr>transactions := history [?S, ?N] ?ds\<rparr>"
            "r = Inr (fst (apply_write ?N (history [?S] ?ds)) = 1)"
    using assms
    by (auto simp: UpdateDeviceActionStatus_def FindOneAndUpdate_def UpdateOne_def Let_def
             split: if_splits option.splits)
  then show ?thesis
  proof cases
    case none
    then show ?thesis by (intro conjI exI[of _ "[]"]) auto
  next
    case one
    then show ?thesis by (intro conjI exI[of _ "[?S]"]) auto
  next
    case two
    then show ?thesis by (intro conjI exI[of _ "[?S, ?N]"]) auto
  qed
qed

lemma finalStatus_frame:
  "finalStatus cfg e dev did a en w = (fs, w2) \<Longrightarrow>
     transactions w2 = transactions w \<and> sent w2 = sent w"
  by (auto simp: finalStatus_def GetDeviceConfig_def SetDeviceConfig_def
        StoreDeviceOriginalState_def Let_def
      split: if_splits sum.splits option.splits prod.splits)

lemma markTransactionCompleteIfDone_frame:
  "sent (snd (markTransactionCompleteIfDone e tid a w)) = sent w \<and>
   (\<exists>ws. transactions (snd (markTransactionCompleteIfDone e tid a w)) = history ws (transactions w)
       \<and> (\<forall>k b. elections_won k b ws (transactions w) = 0))"
proof -
  let ?M = "MarkCompleted_w tid (now e)"
  have "snd (markTransactionCompleteIfDone e tid a w) = w
      \<or> snd (markTransactionCompleteIfDone e tid a w)
          = w\<lparr>transactions := history [?M] (transactions w)\<rparr>"
    by (cases "GetTransaction e tid w")
       (simp_all add: markTransactionCompleteIfDone_def MarkTransactionCompleted_def Let_def)
  then consider "snd (markTransactionCompleteIfDone e tid a w) = w"
    | "snd (markTransactionCompleteIfDone e tid a w)
          = w\<lparr>transactions := history [?M] (transactions w)\<rparr>"
    by blast
  then show ?thesis
  proof cases
    case 1
    then show ?thesis by (intro conjI exI[of _ "[]"]) auto
  next
    case 2
    then show ?thesis by (intro conjI exI[of _ "[?M]"]) auto
  qed
qed

lemma processDevice_events:
  assumes "processDevice cfg e tid dev did a en sub w = (r, w')"
  shows "\<exists>ws new. transactions w' = history ws (transactions w) \<and> sent w' = sent w @ new
           \<and> length (filter (is_AllDevicesCompleted k b) new)
               \<le> elections_won k b ws (transactions w)"
proof -
  obtain r1 w1 where u1: "UpdateDeviceActionStatus e tid did a ''in-progress'' w = (r1, w1)"
    by fastforce
  obtain ws1 where w1: "sent w1 = sent w" "transactions w1 = history ws1 (transactions w)"
    using UpdateDeviceActionStatus_writes[OF u1] by (metis world.select_convs(4) world.surjective world.update_convs(1))
  show ?thesis
  proof (cases r1)
    case (Inl err)
    then have "w' = w1" using assms u1 by (simp add: processDevice_def)
    then show ?thesis using w1 by (intro exI[of _ ws1] exI[of _ "[]"]) simp
  next
    case (Inr b1)
    obtain fs w2 where f: "finalStatus cfg e dev did a en w1 = (fs, w2)" by fastforce
    have w2: "sent w2 = sent w" "transactions w2 = transactions w1"
      using finalStatus_frame[OF f] w1 by auto
    obtain r3 w3 where u3: "UpdateDeviceActionStatus e tid did a fs w2 = (r3, w3)" by fastforce
    from UpdateDeviceActionStatus_writes[OF u3]
    obtain ws3 where w3: "w3 = w2\<lparr>transactions := transactions w3\<rparr>"
        "transactions w3 = history ws3 (transactions w2)"
        "(if r3 = Inr True then 1 else 0) \<le> elections_won tid a ws3 (transactions w2)"
      by blast
    have s3: "sent w3 = sent w"
      using w3(1) w2(1) by (metis world.select_convs(4) world.surjective world.update_convs(1))
    have t3: "transactions w3 = history (ws1 @ ws3) (transactions w)"
      using w3(2) w2(2) w1(2) by simp
    have e3: "(if r3 = Inr True then 1 else 0) \<le> elections_won tid a (ws1 @ ws3) (transactions w)"
      using w3(3) w2(2) w1(2) by (simp add: elections_won_append)
    show ?thesis
    proof (cases "r3 = Inr True")
      case False
      then have "w' = w3" using assms u1 Inr f u3
        by (cases r3) (auto simp: processDevice_def)
      then show ?thesis using s3 t3 by (intro exI[of _ "ws1 @ ws3"] exI[of _ "[]"]) simp
    next
      case True
      let ?ev = "SendCall (tid @ ''-'' @ a @ ''-all-completed'') EventTypeAllDevicesCompleted
                   SourceiotWorker (AllDevicesCompletedData tid a (now e) sub)"
      let ?w4 = "w3\<lparr>sent := sent w3 @ [?ev]\<rparr>"
      have cases': "w' = ?w4 \<or> w' = snd (markTransactionCompleteIfDone e tid a ?w4)"
        using assms u1 Inr f u3 True
        by (auto simp: processDevice_def Send_def split: if_splits)
      obtain ws5 where m: "sent (snd (markTransactionCompleteIfDone e tid a ?w4)) = sent ?w4"
         "transactions (snd (markTransactionCompleteIfDone e tid a ?w4)) = history ws5 (transactions ?w4)"
        using markTransactionCompleteIfDone_frame[of e tid a ?w4] by blast
      have cnt: "length (filter (is_AllDevicesCompleted k b) [?ev])
                   \<le> elections_won k b (ws1 @ ws3) (transactions w)"
      proof (cases "k = tid \<and> b = a")
        case True
        then show ?thesis using e3 \<open>r3 = Inr True\<close> by simp
      next
        case False
        then show ?thesis by auto
      qed
      from cases' show ?thesis
      proof
        assume "w' = ?w4"
        then show ?thesis using s3 t3 cnt
          by (intro exI[of _ "ws1 @ ws3"] exI[of _ "[?ev]"]) simp
      next
        assume w': "w' = snd (markTransactionCompleteIfDone e tid a ?w4)"
        have "length (filter (is_AllDevicesCompleted k b) [?ev])
                \<le> elections_won k b ((ws1 @ ws3) @ ws5) (transactions w)"
          using cnt by (simp add: elections_won_append del: append_assoc)
        then show ?thesis using w' m s3 t3
          by (intro exI[of _ "(ws1 @ ws3) @ ws5"] exI[of _ "[?ev]"]) simp
      qed
    qed
  qed
qed

lemma worker_run_events:
  "\<exists>ws new. transactions (worker_run cfg rs w) = history ws (transactions w)
      \<and> sent (worker_run cfg rs w) = sent w @ new
      \<and> length (filter (is_AllDevicesCompleted k b) new) \<le> elections_won k b ws (transactions w)"
proof (induction rs arbitrary: w)
  case Nil
  show ?case by (intro exI[of _ "[]"]) simp
next
  case (Cons rq rs)
  obtain e tid dev did a en sub where rq: "rq = (e, tid, dev, did, a, en, sub)"
    by (cases rq) auto
  obtain r w1 where p: "processDevice cfg e tid dev did a en sub w = (r, w1)" by fastforce
  obtain ws1 new1 where 1: "transactions w1 = history ws1 (transactions w)"
      "sent w1 = sent w @ new1"
      "length (filter (is_AllDevicesCompleted k b) new1) \<le> elections_won k b ws1 (transactions w)"
    using processDevice_events[OF p] by blast
  obtain ws2 new2 where 2: "transactions (worker_run cfg rs w1) = history ws2 (transactions w1)"
      "sent (worker_run cfg rs w1) = sent w1 @ new2"
      "length (filter (is_AllDevicesCompleted k b) new2) \<le> elections_won k b ws2 (transactions w1)"
    using Cons.IH[of w1] by blast
  show ?case
    using rq p 1 2
    by (intro exI[of _ "ws1 @ ws2"] exI[of _ "new1 @ new2"]) (simp add: elections_won_append)
qed

lemma length_filter_all:
  "length (filter P xs) = length xs \<Longrightarrow> list_all P xs"
proof (induction xs)
  case Nil
  then show ?case by simp
next
  case (Cons x xs)
  show ?case
  proof (cases "P x")
    case True
    then show ?thesis using Cons by simp
  next
    case False
    then have "length (filter P xs) = Suc (length xs)" using Cons.prems by simp
    moreover have "length (filter P xs) \<le> length xs" by (rule length_filter_le)
    ultimately show ?thesis by linarith
  qed
qed

lemma notifiedUpdate_Devices [simp]: "Devices (notifiedUpdate t0 a t) = Devices t"
  by (simp add: notifiedUpdate_def)

lemma UpdateDeviceActionStatus_winner:
  assumes d: "distinct (map TransactionID (transactions w))"
      and u: "UpdateDeviceActionStatus e tid did a st w = (Inr True, w')"
  shows "\<exists>t'. find (\<lambda>t. TransactionID t = tid) (transactions w') = Some t' \<and> notified a t'
            \<and> Devices t' \<noteq> [] \<and> list_all (completed a) (Devices t')"
proof -
  let ?ds = "transactions w"
  let ?ds1 = "update_first (statusFilter tid did) (statusUpdate (now e) did a st) ?ds"
  from u obtain t0 where t0: "find (statusFilter tid did) ?ds = Some t0"
    by (auto simp: UpdateDeviceActionStatus_def FindOneAndUpdate_def Let_def
             split: if_splits option.splits)
  let ?post = "statusUpdate (now e) did a st t0"
  from u t0 have cnt: "length (filter (completed a) (Devices ?post)) = length (Devices ?post)"
      "Devices ?post \<noteq> []"
    and m: "list_ex (notifiedFilter tid a) ?ds1"
    and w': "transactions w' = update_first (notifiedFilter tid a) (notifiedUpdate (now e) a) ?ds1"
    by (auto simp: UpdateDeviceActionStatus_def FindOneAndUpdate_def UpdateOne_def Let_def
             split: if_splits)
  have t0_in: "t0 \<in> set ?ds" "statusFilter tid did t0"
    using t0 by (auto simp: find_Some_iff)
  then have id0: "TransactionID t0 = tid" by (simp add: statusFilter_def)
  have f0: "find (\<lambda>t. TransactionID t = tid) ?ds = Some t0"
    using find_distinct_key[OF d t0_in(1)] id0 by simp
  have f1: "find (\<lambda>t. TransactionID t = tid) ?ds1 = Some ?post"
    by (rule find_update_first_hit[where P="statusFilter tid did", OF f0 t0_in(2)])
       (auto simp: statusFilter_def)
  have d1: "distinct (map TransactionID ?ds1)"
    using d by (simp add: update_first_keys)
  from m obtain y where y: "y \<in> set ?ds1" "TransactionID y = tid" "\<not> notified a y"
    by (auto simp: list_ex_iff notifiedFilter_def)
  have "y = ?post"
    using find_distinct_key[OF d1 y(1)] y(2) f1 by simp
  then have nf: "notifiedFilter tid a ?post"
    using y by (simp add: notifiedFilter_def)
  have "find (\<lambda>t. TransactionID t = tid)
          (update_first (notifiedFilter tid a) (notifiedUpdate (now e) a) ?ds1)
        = Some (notifiedUpdate (now e) a ?post)"
    by (rule find_update_first_hit[where P="notifiedFilter tid a", OF f1 nf])
       (auto simp: notifiedFilter_def)
  then show ?thesis unfolding w'
    using cnt length_filter_all[OF cnt(1)] by (auto simp: notifiedUpdate_notified)
qed

lemma UpdateDeviceActionStatus_loser:
  assumes "distinct (map TransactionID (transactions w))"
      and "find (\<lambda>t. TransactionID t = tid) (transactions w) = Some t" and "notified a t"
  shows "fst (UpdateDeviceActionStatus e tid did a st w) \<noteq> Inr True"
proof
  assume r: "fst (UpdateDeviceActionStatus e tid did a st w) = Inr True"
  obtain w' where "UpdateDeviceActionStatus e tid did a st w = (Inr True, w')"
    using r by (cases "UpdateDeviceActionStatus e tid did a st w") auto
  from UpdateDeviceActionStatus_writes[OF this]
  obtain ws where "(1::nat) \<le> elections_won tid a ws (transactions w)" by auto
  then show False using no_election_after_notified[OF assms, of ws] by simp
qed




lemma publish_sent:
  "publish e t (ScheduleAction tid a sub) en i ds w =
     w\<lparr>sent := sent w @
          map (\<lambda>(i, d). SendCall (TransactionID t @ ''-'' @ a @ ''-device-'' @ decimal i)
                 EventTypeDeviceActuationRequest SourceiotScheduler
                 (DeviceActuationRequestData (Device d) en (TransactionID t) a sub))
            (enumerate i ds)\<rparr>"
  by (induction ds arbitrary: i w) (simp_all add: Send_def)

lemma GetTransaction_found:
  "GetTransaction e tid w = Inr t \<Longrightarrow>
     \<not> fails e (GetTransaction_FindOne tid)
     \<and> find (\<lambda>t. TransactionID t = tid) (transactions w) = Some t \<and> TransactionID t = tid"
  by (auto simp: GetTransaction_def find_Some_iff split: if_splits option.splits)

lemma ClaimTransaction_frame:
  "ClaimTransaction e tid a w = (r, w1) \<Longrightarrow> w1 = w\<lparr>transactions := transactions w1\<rparr>"
  by (auto simp: ClaimTransaction_def UpdateOne_def split: if_splits option.splits)


lemma find_None_iff_set: "find P xs = None \<longleftrightarrow> (\<forall>x\<in>set xs. \<not> P x)"
  by (induction xs) auto

lemma UpdateDeviceActionStatus_no_devices:
  assumes "\<forall>t\<in>set (transactions w). TransactionID t = tid \<longrightarrow> Devices t = []"
  shows "\<exists>err. UpdateDeviceActionStatus e tid did a st w = (Inl err, w)"
proof -
  have "find (statusFilter tid did) (transactions w) = None"
    using assms by (auto simp: find_None_iff_set statusFilter_def)
  then show ?thesis
    by (simp add: UpdateDeviceActionStatus_def FindOneAndUpdate_def)
qed

lemma processDevice_no_devices:
  assumes "\<forall>t\<in>set (transactions w). TransactionID t = tid \<longrightarrow> Devices t = []"
  shows "snd (processDevice cfg e tid dev did a en sub w) = w"
  using UpdateDeviceActionStatus_no_devices[OF assms, of e did a "''in-progress''"]
  by (auto simp: processDevice_def)

lemma worker_run_no_devices:
  assumes "\<forall>t\<in>set (transactions w). TransactionID t = tid \<longrightarrow> Devices t = []"
      and "list_all (\<lambda>(e, k, dev, did, a, en, sub). k = tid) rs"
  shows "worker_run cfg rs w = w"
  using assms(2)
proof (induction rs)
  case Nil
  then show ?case by simp
next
  case (Cons r rs)
  then show ?case
    using processDevice_no_devices[OF assms(1)] by (cases r) auto
qed

lemma newDevices_none:
  "\<forall>d\<in>set ds. NetworkAccessIdentifier d = None \<Longrightarrow> newDevices t0 ds = []"
  by (induction ds) auto


lemma UpdateDeviceActionStatus_frame:
  assumes "UpdateDeviceActionStatus e tid did a st w = (r, w')"
  shows "nefCalls w' = nefCalls w" "sent w' = sent w" "deviceConfigs w' = deviceConfigs w"
        "armed w' = armed w" "timers w' = timers w"
proof -
  have "w' = w\<lparr>transactions := transactions w'\<rparr>"
    using UpdateDeviceActionStatus_writes[OF assms] by blast
  then obtain ds where "w' = w\<lparr>transactions := ds\<rparr>" ..
  then show "nefCalls w' = nefCalls w" "sent w' = sent w" "deviceConfigs w' = deviceConfigs w"
        "armed w' = armed w" "timers w' = timers w"
    by simp_all
qed


subsection \<open>The stored status of a device\<close>

lemma find_update_first_same:
  "(\<And>d. P d \<Longrightarrow> P (f d)) \<Longrightarrow> find P (update_first P f ds) = map_option f (find P ds)"
  by (induction ds) auto

lemma bind_find_update_first:
  assumes "\<And>d. Q (f d) = Q d" and "\<And>d. g (f d) = g d"
  shows "Option.bind (find Q (update_first P f ds)) g = Option.bind (find Q ds) g"
  using assms by (induction ds) auto

lemma status_of_bind:
  "status_of tid did a w = Option.bind (find (statusFilter tid did) (transactions w)) (row_status did a)"
  by (simp add: status_of_def row_status_def split: option.splits)

lemma list_ex_update_first_DeviceID:
  "list_ex (\<lambda>d. DeviceID d = did) (update_first P (setAction a s) ds)
     = list_ex (\<lambda>d. DeviceID d = did) ds"
  by (induction ds) (auto simp: setAction_def)

lemma statusFilter_statusUpdate [simp]:
  "statusFilter tid did (statusUpdate t0 did' a st t) = statusFilter tid did t"
  by (simp add: statusFilter_def statusUpdate_def list_ex_update_first_DeviceID)

lemma row_status_statusUpdate:
  "statusFilter tid did t \<Longrightarrow> row_status did a (statusUpdate t0 did a st t) = Some st"
proof -
  assume "statusFilter tid did t"
  then obtain d where "find (\<lambda>d. DeviceID d = did) (Devices t) = Some d"
    by (cases "find (\<lambda>d. DeviceID d = did) (Devices t)")
       (auto simp: statusFilter_def find_None_iff_set list_ex_iff)
  then show ?thesis
    by (simp add: row_status_def statusUpdate_def find_update_first_same setAction_def
          actionField_def)
qed

lemma statusFilter_notifiedUpdate [simp]:
  "statusFilter tid did (notifiedUpdate t0 a t) = statusFilter tid did t"
  by (simp add: statusFilter_def notifiedUpdate_def)

lemma row_status_notifiedUpdate [simp]:
  "row_status did a (notifiedUpdate t0 a' t) = row_status did a t"
  by (simp add: row_status_def notifiedUpdate_def)

lemma UpdateDeviceActionStatus_status_of:
  assumes "UpdateDeviceActionStatus e tid did a st w = (Inr c, w')"
  shows "status_of tid did a w' = Some st"
proof -
  let ?ds = "transactions w"
  let ?ds1 = "update_first (statusFilter tid did) (statusUpdate (now e) did a st) ?ds"
  let ?ds2 = "update_first (notifiedFilter tid a) (notifiedUpdate (now e) a) ?ds1"
  from assms obtain t0 where t0: "find (statusFilter tid did) ?ds = Some t0"
    by (auto simp: UpdateDeviceActionStatus_def FindOneAndUpdate_def Let_def
             split: if_splits option.splits)
  then have sf: "statusFilter tid did t0" by (auto simp: find_Some_iff)
  have 1: "find (statusFilter tid did) ?ds1 = Some (statusUpdate (now e) did a st t0)"
    using t0 by (simp add: find_update_first_same)
  then have b1: "Option.bind (find (statusFilter tid did) ?ds1) (row_status did a) = Some st"
    using sf by (simp add: row_status_statusUpdate)
  have b2: "Option.bind (find (statusFilter tid did) ?ds2) (row_status did a) = Some st"
    using b1 by (simp add: bind_find_update_first)
  have "transactions w' = ?ds1 \<or> transactions w' = ?ds2"
    using assms t0
    by (auto simp: UpdateDeviceActionStatus_def FindOneAndUpdate_def UpdateOne_def Let_def
             split: if_splits)
  then show ?thesis using b1 b2 by (auto simp: status_of_bind)
qed

lemma markTransactionCompleteIfDone_status_of:
  "status_of k did a' (snd (markTransactionCompleteIfDone e tid a w)) = status_of k did a' w"
proof -
  have "Option.bind (find (statusFilter k did)
           (update_first (\<lambda>t. TransactionID t = tid)
              (\<lambda>t. t\<lparr>Status := StatusCompleted, UpdatedAt := now e\<rparr>) ds)) (row_status did a')
        = Option.bind (find (statusFilter k did) ds) (row_status did a')" for ds
    by (rule bind_find_update_first) (simp_all add: statusFilter_def row_status_def)
  then show ?thesis
    by (cases "GetTransaction e tid w")
       (simp_all add: markTransactionCompleteIfDone_def MarkTransactionCompleted_def Let_def
          status_of_bind UpdateOne_def)
qed






lemma clampDelay_nonneg: "0 \<le> clampDelay d"
  by (simp add: clampDelay_def)

lemma sendErrorNotification_armed [simp]:
  "armed (sendErrorNotification e tid a c m s w) = armed w"
  by (simp add: sendErrorNotification_def Send_def)

lemma publish_armed [simp]: "armed (publish e t sa en i ds w) = armed w"
  by (cases sa) (simp add: publish_sent)

lemma handleScheduleRequested_armed:
  "armed (snd (handleScheduleRequested e data w)) = armed w
   \<or> armed (snd (handleScheduleRequested e data w))
       = armed w @ [AfterFunc (clampDelay (Until e (StartAt_sr data)))
                      (ScheduleAction (TransactionID_sr data) ''start''
                         (SubscriptionRequest_sr data))]"
  by (auto simp: handleScheduleRequested_def CreateTransaction_def arm_def Let_def
        ActionStart_def split: option.splits)

lemma handleAllDevicesCompleted_armed:
  "(action = ''start'' \<and> GetTransaction e tid w = Inr t \<and> EndAt t = Some endAt \<longrightarrow>
      armed (snd (handleAllDevicesCompleted e tid action w))
        = armed w @ [AfterFunc (clampDelay (Until e endAt))
                       (ScheduleAction tid ''end'' (SubscriptionRequest t))])
   \<and> (\<not> (action = ''start'' \<and> (\<exists>t endAt. GetTransaction e tid w = Inr t \<and> EndAt t = Some endAt))
        \<longrightarrow> snd (handleAllDevicesCompleted e tid action w) = w)"
  by (auto simp: handleAllDevicesCompleted_def arm_def ActionStart_def ActionEnd_def
           split: sum.splits option.splits)

lemma restore_armed:
  "\<exists>new. armed (restore e tx w) = armed w @ new
     \<and> (\<forall>d k a s. AfterFunc d (ScheduleAction k a s) \<in> set new \<longrightarrow>
           0 \<le> d \<and> k = TransactionID tx \<and> (a = ''start'' \<or> a = ''end'')
           \<and> (a = ''start'' \<longrightarrow> \<not> StartActionCompleted tx)
           \<and> (a = ''end'' \<longrightarrow> recoverable_end tx))"
proof -
  let ?s = "AfterFunc (clampDelay (Until e (StartAt tx)))
              (ScheduleAction (TransactionID tx) ''start'' (SubscriptionRequest tx))"
  let ?new = "(if \<not> StartActionCompleted tx then [?s] else []) @
     (case EndAt tx of None \<Rightarrow> []
      | Some endAt \<Rightarrow>
          if StartActionCompleted tx \<and> \<not> EndActionCompleted tx
          then [AfterFunc (clampDelay (Until e endAt))
                  (ScheduleAction (TransactionID tx) ''end'' (SubscriptionRequest tx))]
          else [])"
  have "armed (restore e tx w) = armed w @ ?new"
    by (simp add: restore_def arm_def ActionStart_def ActionEnd_def Let_def split: option.splits)
  moreover have "\<forall>d k a s. AfterFunc d (ScheduleAction k a s) \<in> set ?new \<longrightarrow>
           0 \<le> d \<and> k = TransactionID tx \<and> (a = ''start'' \<or> a = ''end'')
           \<and> (a = ''start'' \<longrightarrow> \<not> StartActionCompleted tx)
           \<and> (a = ''end'' \<longrightarrow> recoverable_end tx)"
    by (cases "EndAt tx") (auto simp: clampDelay_nonneg recoverable_end_def split: if_splits)
  ultimately show ?thesis by blast
qed

lemma fold_restore_armed:
  "\<exists>new. armed (fold (restore e) txs w) = armed w @ new
     \<and> (\<forall>d k a s. AfterFunc d (ScheduleAction k a s) \<in> set new \<longrightarrow>
           0 \<le> d \<and> (a = ''start'' \<or> a = ''end'')
           \<and> (\<exists>tx\<in>set txs. k = TransactionID tx
                 \<and> (a = ''start'' \<longrightarrow> \<not> StartActionCompleted tx)
                 \<and> (a = ''end'' \<longrightarrow> recoverable_end tx)))"
proof (induction txs arbitrary: w)
  case Nil
  show ?case by simp
next
  case (Cons tx txs)
  obtain n1 where 1: "armed (restore e tx w) = armed w @ n1"
     "\<forall>d k a s. AfterFunc d (ScheduleAction k a s) \<in> set n1 \<longrightarrow>
           0 \<le> d \<and> k = TransactionID tx \<and> (a = ''start'' \<or> a = ''end'')
           \<and> (a = ''start'' \<longrightarrow> \<not> StartActionCompleted tx)
           \<and> (a = ''end'' \<longrightarrow> recoverable_end tx)"
    using restore_armed[of e tx w] by blast
  obtain n2 where 2: "armed (fold (restore e) txs (restore e tx w)) = armed (restore e tx w) @ n2"
     "\<forall>d k a s. AfterFunc d (ScheduleAction k a s) \<in> set n2 \<longrightarrow>
           0 \<le> d \<and> (a = ''start'' \<or> a = ''end'')
           \<and> (\<exists>tx\<in>set txs. k = TransactionID tx
                 \<and> (a = ''start'' \<longrightarrow> \<not> StartActionCompleted tx)
                 \<and> (a = ''end'' \<longrightarrow> recoverable_end tx))"
    using Cons.IH[of "restore e tx w"] by blast
  have "armed (fold (restore e) (tx # txs) w) = armed w @ (n1 @ n2)"
    using 1(1) 2(1) by simp
  moreover have "\<forall>d k a s. AfterFunc d (ScheduleAction k a s) \<in> set (n1 @ n2) \<longrightarrow>
           0 \<le> d \<and> (a = ''start'' \<or> a = ''end'')
           \<and> (\<exists>tx'\<in>set (tx # txs). k = TransactionID tx'
                 \<and> (a = ''start'' \<longrightarrow> \<not> StartActionCompleted tx')
                 \<and> (a = ''end'' \<longrightarrow> recoverable_end tx'))"
    using 1(2) 2(2) by (simp only: set_append Un_iff set_simps) blast
  ultimately show ?case by blast
qed

lemma loadPendingSchedules_armed:
  "\<exists>new. armed (snd (loadPendingSchedules e w)) = armed w @ new
     \<and> (\<forall>d k a s. AfterFunc d (ScheduleAction k a s) \<in> set new \<longrightarrow>
           0 \<le> d \<and> (a = ''start'' \<or> a = ''end'')
           \<and> (\<exists>tx\<in>set (transactions w). k = TransactionID tx
                 \<and> (Status tx = StatusPending \<or> Status tx = StatusProcessing)
                 \<and> (a = ''start'' \<longrightarrow> \<not> StartActionCompleted tx)
                 \<and> (a = ''end'' \<longrightarrow> recoverable_end tx)))"
proof (cases "GetPendingTransactions e w")
  case (Inl err)
  then have "armed (snd (loadPendingSchedules e w)) = armed w @ []"
    by (simp add: loadPendingSchedules_def)
  then show ?thesis by (intro exI[of _ "[]"]) simp
next
  case (Inr txs)
  then have txs: "txs = filter (\<lambda>t. Status t = StatusPending \<or> Status t = StatusProcessing)
                          (transactions w)"
    by (auto simp: GetPendingTransactions_def split: if_splits)
  have l: "snd (loadPendingSchedules e w) = fold (restore e) txs w"
    using Inr by (simp add: loadPendingSchedules_def)
  from fold_restore_armed[of e txs w] obtain new where
    n: "armed (fold (restore e) txs w) = armed w @ new"
     "\<forall>d k a s. AfterFunc d (ScheduleAction k a s) \<in> set new \<longrightarrow>
           0 \<le> d \<and> (a = ''start'' \<or> a = ''end'')
           \<and> (\<exists>tx\<in>set txs. k = TransactionID tx
                 \<and> (a = ''start'' \<longrightarrow> \<not> StartActionCompleted tx)
                 \<and> (a = ''end'' \<longrightarrow> recoverable_end tx))"
    by blast
  have "\<forall>d k a s. AfterFunc d (ScheduleAction k a s) \<in> set new \<longrightarrow>
           0 \<le> d \<and> (a = ''start'' \<or> a = ''end'')
           \<and> (\<exists>tx\<in>set (transactions w). k = TransactionID tx
                 \<and> (Status tx = StatusPending \<or> Status tx = StatusProcessing)
                 \<and> (a = ''start'' \<longrightarrow> \<not> StartActionCompleted tx)
                 \<and> (a = ''end'' \<longrightarrow> recoverable_end tx))"
    using n(2) unfolding txs by (simp only: set_filter mem_Collect_eq) blast
  then show ?thesis using n(1) l by auto
qed

lemma fireSchedule_armed: "armed (snd (fireSchedule e a w)) = armed w"
proof -
  have c: "armed (snd (ClaimTransaction e tid act w)) = armed w" for tid act
    by (auto simp: ClaimTransaction_def UpdateOne_def split: if_splits option.splits)
  have m: "armed (snd (MarkTransactionFailed e tid msg w')) = armed w'" for tid msg w'
    by (simp add: MarkTransactionFailed_def)
  obtain tid act sub where a: "a = ScheduleAction tid act sub" by (cases a)
  obtain r w1 where cl: "ClaimTransaction e tid act w = (r, w1)" by fastforce
  then have "armed w1 = armed w" using c[of tid act] by simp
  then show ?thesis
    using a cl m by (auto simp: fireSchedule_def split: sum.splits)
qed


lemma finalStatus_terminal:
  "fst (finalStatus config e device deviceID action enabled w) = ''success''
   \<or> fst (finalStatus config e device deviceID action enabled w) = ''failed''"
  by (auto simp: finalStatus_def GetDeviceConfig_def SetDeviceConfig_def
        StoreDeviceOriginalState_def Let_def
      split: sum.splits option.splits prod.splits)

lemma processDevice_status_of:
  assumes u1: "UpdateDeviceActionStatus e tid did a ''in-progress'' w = (Inr b, w1)"
      and f: "finalStatus config e dev did a en w1 = (fs, w2)"
      and u3: "UpdateDeviceActionStatus e tid did a fs w2 = (Inr c, w3)"
  shows "status_of tid did a (snd (processDevice config e tid dev did a en sub w)) = Some fs"
proof -
  let ?p = "processDevice config e tid dev did a en sub w"
  let ?w4 = "w3\<lparr>sent := sent w3 @
                [SendCall (tid @ ''-'' @ a @ ''-all-completed'')
                   EventTypeAllDevicesCompleted SourceiotWorker
                   (AllDevicesCompletedData tid a (now e) sub)]\<rparr>"
  have s3: "status_of tid did a w3 = Some fs"
    using UpdateDeviceActionStatus_status_of[OF u3] .
  then have s4: "status_of tid did a ?w4 = Some fs"
    by (simp add: status_of_def)
  have "snd ?p = w3 \<or> snd ?p = ?w4 \<or> snd ?p = snd (markTransactionCompleteIfDone e tid a ?w4)"
    using u1 f u3 by (auto simp: processDevice_def Send_def split: if_splits)
  then show ?thesis
    using s3 s4 markTransactionCompleteIfDone_status_of[of tid did a e tid a ?w4] by auto
qed


lemma sendErrorNotification_no_request:
  "filter is_DeviceActuationRequest (sent (sendErrorNotification e tid a c m s w))
     = filter is_DeviceActuationRequest (sent w)"
  by (simp add: sendErrorNotification_def Send_def)

lemma ClaimTransaction_no_match:
  assumes "\<not> list_ex (claimFilter tid a) (transactions w)"
  shows "snd (ClaimTransaction e tid a w) = w" "fst (ClaimTransaction e tid a w) \<noteq> Inr True"
  using assms by (auto simp: ClaimTransaction_def UpdateOne_def split: option.splits)

lemma fireSchedule_no_match:
  assumes "\<not> list_ex (claimFilter tid a) (transactions w)"
  shows "filter is_DeviceActuationRequest (sent (snd (fireSchedule e (ScheduleAction tid a sub) w)))
           = filter is_DeviceActuationRequest (sent w)"
proof -
  obtain r where c: "ClaimTransaction e tid a w = (r, w)" "r \<noteq> Inr True"
    using ClaimTransaction_no_match[OF assms, of e]
    by (cases "ClaimTransaction e tid a w") auto
  then show ?thesis
    by (cases r) (auto simp: fireSchedule_def sendErrorNotification_no_request)
qed


lemma handleScheduleRequested_duplicate:
  assumes "list_ex (\<lambda>t. TransactionID t = TransactionID_sr data) (transactions w)"
  shows "handleScheduleRequested e data w =
     (Some (Errorf ''create transaction''
              (if fails e (CreateTransaction_InsertOne (TransactionID_sr data))
               then ErrDriver else ErrDuplicateKey)),
      sendErrorNotification e (TransactionID_sr data) ''start'' ''INTERNAL_ERROR''
        ''Failed to create transaction in database'' (SubscriptionRequest_sr data) w)"
  using assms
  by (simp add: handleScheduleRequested_def CreateTransaction_def InsertOne_def ActionStart_def)

lemma sendErrorNotification_world:
  "sendErrorNotification e tid a c m s w =
     w\<lparr>sent := sent w @
          (if Sink s = [] then []
           else [SendCall (tid @ ''-'' @ a @ ''-error'') EventTypePowerSavingError
                   SourceiotScheduler (ErrorNotificationData tid 500 c m a s)])\<rparr>"
  by (simp add: sendErrorNotification_def Send_def)

lemma scheduler_replay_duplicate:
  assumes "list_ex (\<lambda>t. TransactionID t = TransactionID_sr data) (transactions w)"
  shows "transactions (scheduler_replay es data w) = transactions w
       \<and> armed (scheduler_replay es data w) = armed w
       \<and> timers (scheduler_replay es data w) = timers w"
  using assms
proof (induction es arbitrary: w)
  case Nil
  show ?case by simp
next
  case (Cons e es)
  let ?w1 = "snd (handleScheduleRequested e data w)"
  have 1: "transactions ?w1 = transactions w" "armed ?w1 = armed w" "timers ?w1 = timers w"
    using handleScheduleRequested_duplicate[OF Cons.prems, of e]
    by (simp_all add: sendErrorNotification_world)
  then have "list_ex (\<lambda>t. TransactionID t = TransactionID_sr data) (transactions ?w1)"
    using Cons.prems by simp
  from Cons.IH[OF this] 1 show ?case by simp
qed

lemma handleScheduleRequested_first:
  assumes "\<not> list_ex (\<lambda>t. TransactionID t = TransactionID_sr data) (transactions w)"
      and "\<not> fails e (CreateTransaction_InsertOne (TransactionID_sr data))"
  shows "fst (handleScheduleRequested e data w) = None"
    and "length (filter (\<lambda>t. TransactionID t = TransactionID_sr data)
                   (transactions (snd (handleScheduleRequested e data w)))) = 1"
proof -
  have "filter (\<lambda>t. TransactionID t = TransactionID_sr data) (transactions w) = []"
    using assms(1) by (auto simp: list_ex_iff filter_empty_conv)
  then show "fst (handleScheduleRequested e data w) = None"
    and "length (filter (\<lambda>t. TransactionID t = TransactionID_sr data)
                   (transactions (snd (handleScheduleRequested e data w)))) = 1"
    using assms
    by (simp_all add: handleScheduleRequested_def CreateTransaction_def InsertOne_def arm_def)
qed


lemma update_first_keeps:
  assumes "find (\<lambda>t. TransactionID t = k) ds = Some t" and "Q t"
      and "\<And>d. TransactionID (f d) = TransactionID d"
      and "\<And>d. Q d \<Longrightarrow> Q (f d)"
  shows "\<exists>t'. find (\<lambda>t. TransactionID t = k) (update_first P f ds) = Some t' \<and> Q t'"
  using assms by (induction ds) (auto split: if_splits)

lemma markTransactionCompleteIfDone_keeps_devices:
  assumes "find (\<lambda>t. TransactionID t = k) (transactions w) = Some t"
      and "Devices t \<noteq> [] \<and> list_all (completed a') (Devices t)"
  shows "\<exists>t'. find (\<lambda>t. TransactionID t = k)
                 (transactions (snd (markTransactionCompleteIfDone e tid a w))) = Some t'
             \<and> Devices t' \<noteq> [] \<and> list_all (completed a') (Devices t')"
proof -
  let ?f = "\<lambda>t. t\<lparr>Status := StatusCompleted, UpdatedAt := now e\<rparr>"
  have "\<exists>t'. find (\<lambda>t. TransactionID t = k)
                 (update_first (\<lambda>t. TransactionID t = tid) ?f (transactions w)) = Some t'
             \<and> (Devices t' \<noteq> [] \<and> list_all (completed a') (Devices t'))"
    by (rule update_first_keeps
              [where Q = "\<lambda>t. Devices t \<noteq> [] \<and> list_all (completed a') (Devices t)",
               OF assms(1)])
       (use assms(2) in simp_all)
  then show ?thesis
    using assms
    by (cases "GetTransaction e tid w")
       (auto simp: markTransactionCompleteIfDone_def MarkTransactionCompleted_def Let_def
          UpdateOne_def)
qed

lemma processDevice_event_after_completion:
  assumes d: "distinct (map TransactionID (transactions w))"
      and s: "sent (snd (processDevice config e tid dev did a en sub w)) \<noteq> sent w"
  shows "\<exists>t'. find (\<lambda>t. TransactionID t = tid)
                 (transactions (snd (processDevice config e tid dev did a en sub w))) = Some t'
             \<and> Devices t' \<noteq> [] \<and> list_all (completed a) (Devices t')"
proof -
  let ?p = "processDevice config e tid dev did a en sub w"
  obtain r1 w1 where u1: "UpdateDeviceActionStatus e tid did a ''in-progress'' w = (r1, w1)"
    by fastforce
  note fr1 = UpdateDeviceActionStatus_frame[OF u1]
  obtain ws1 where h1: "transactions w1 = history ws1 (transactions w)"
    using UpdateDeviceActionStatus_writes[OF u1] by blast
  show ?thesis
  proof (cases r1)
    case (Inl err)
    then have "snd ?p = w1" using u1 by (simp add: processDevice_def)
    then show ?thesis using s fr1 by simp
  next
    case (Inr b1)
    obtain fs w2 where f: "finalStatus config e dev did a en w1 = (fs, w2)" by fastforce
    have w2: "sent w2 = sent w" "transactions w2 = transactions w1"
      using finalStatus_frame[OF f] fr1 by auto
    obtain r3 w3 where u3: "UpdateDeviceActionStatus e tid did a fs w2 = (r3, w3)" by fastforce
    note fr3 = UpdateDeviceActionStatus_frame[OF u3]
    have d2: "distinct (map TransactionID (transactions w2))"
      using d h1 w2 by (simp add: history_distinct)
    show ?thesis
    proof (cases "r3 = Inr True")
      case False
      then have "snd ?p = w3" using u1 Inr f u3 by (cases r3) (auto simp: processDevice_def)
      then show ?thesis using s fr3 w2 by simp
    next
      case True
      let ?w4 = "w3\<lparr>sent := sent w3 @
                [SendCall (tid @ ''-'' @ a @ ''-all-completed'')
                   EventTypeAllDevicesCompleted SourceiotWorker
                   (AllDevicesCompletedData tid a (now e) sub)]\<rparr>"
      from UpdateDeviceActionStatus_winner[OF d2] u3 True
      obtain t' where t': "find (\<lambda>t. TransactionID t = tid) (transactions w3) = Some t'"
          "Devices t' \<noteq> [] \<and> list_all (completed a) (Devices t')"
        by blast
      then have t4: "find (\<lambda>t. TransactionID t = tid) (transactions ?w4) = Some t'"
        by simp
      have "snd ?p = ?w4 \<or> snd ?p = snd (markTransactionCompleteIfDone e tid a ?w4)"
        using u1 Inr f u3 True by (auto simp: processDevice_def Send_def split: if_splits)
      then show ?thesis
        using t4 t'(2) markTransactionCompleteIfDone_keeps_devices[OF t4 t'(2), of e tid a]
        by auto
    qed
  qed
qed


lemma restore_armed_exact:
  "armed (restore e tx w) = armed w @
     (if \<not> StartActionCompleted tx
      then [AfterFunc (clampDelay (Until e (StartAt tx)))
              (ScheduleAction (TransactionID tx) ''start'' (SubscriptionRequest tx))]
      else []) @
     (case EndAt tx of
        None \<Rightarrow> []
      | Some endAt \<Rightarrow>
          if StartActionCompleted tx \<and> \<not> EndActionCompleted tx
          then [AfterFunc (clampDelay (Until e endAt))
                  (ScheduleAction (TransactionID tx) ''end'' (SubscriptionRequest tx))]
          else [])"
  by (simp add: restore_def arm_def ActionStart_def ActionEnd_def Let_def split: option.splits)

lemma fold_restore_armed_exact:
  "armed (fold (restore e) txs w) = armed w @
     concat (map (\<lambda>tx.
       (if \<not> StartActionCompleted tx
        then [AfterFunc (clampDelay (Until e (StartAt tx)))
                (ScheduleAction (TransactionID tx) ''start'' (SubscriptionRequest tx))]
        else []) @
       (case EndAt tx of
          None \<Rightarrow> []
        | Some endAt \<Rightarrow>
            if StartActionCompleted tx \<and> \<not> EndActionCompleted tx
            then [AfterFunc (clampDelay (Until e endAt))
                    (ScheduleAction (TransactionID tx) ''end'' (SubscriptionRequest tx))]
            else [])) txs)"
proof (induction txs arbitrary: w)
  case Nil
  show ?case by simp
next
  case (Cons tx txs)
  show ?case
    unfolding fold_simps Cons.IH restore_armed_exact by simp
qed

lemma loadPendingSchedules_armed_exact:
  "armed (snd (loadPendingSchedules e w)) = armed w @
     (if fails e GetPendingTransactions_Find then []
      else concat (map (\<lambda>tx.
       (if \<not> StartActionCompleted tx
        then [AfterFunc (clampDelay (Until e (StartAt tx)))
                (ScheduleAction (TransactionID tx) ''start'' (SubscriptionRequest tx))]
        else []) @
       (case EndAt tx of
          None \<Rightarrow> []
        | Some endAt \<Rightarrow>
            if StartActionCompleted tx \<and> \<not> EndActionCompleted tx
            then [AfterFunc (clampDelay (Until e endAt))
                    (ScheduleAction (TransactionID tx) ''end'' (SubscriptionRequest tx))]
            else []))
       (filter (\<lambda>t. Status t = StatusPending \<or> Status t = StatusProcessing)
          (transactions w))))"
  by (simp add: loadPendingSchedules_def GetPendingTransactions_def fold_restore_armed_exact)

lemma loadPendingSchedules_only:
  assumes "armed (snd (loadPendingSchedules e w)) = armed w @ new" and "x \<in> set new"
  shows "\<exists>tx\<in>set (transactions w).
           (Status tx = StatusPending \<or> Status tx = StatusProcessing)
           \<and> ((\<not> StartActionCompleted tx
                \<and> x = AfterFunc (clampDelay (Until e (StartAt tx)))
                        (ScheduleAction (TransactionID tx) ''start'' (SubscriptionRequest tx)))
              \<or> (\<exists>endAt. EndAt tx = Some endAt \<and> StartActionCompleted tx
                    \<and> \<not> EndActionCompleted tx
                    \<and> x = AfterFunc (clampDelay (Until e endAt))
                            (ScheduleAction (TransactionID tx) ''end''
                               (SubscriptionRequest tx))))"
proof -
  from assms have "x \<in> set (if fails e GetPendingTransactions_Find then []
      else concat (map (\<lambda>tx.
       (if \<not> StartActionCompleted tx
        then [AfterFunc (clampDelay (Until e (StartAt tx)))
                (ScheduleAction (TransactionID tx) ''start'' (SubscriptionRequest tx))]
        else []) @
       (case EndAt tx of
          None \<Rightarrow> []
        | Some endAt \<Rightarrow>
            if StartActionCompleted tx \<and> \<not> EndActionCompleted tx
            then [AfterFunc (clampDelay (Until e endAt))
                    (ScheduleAction (TransactionID tx) ''end'' (SubscriptionRequest tx))]
            else []))
       (filter (\<lambda>t. Status t = StatusPending \<or> Status t = StatusProcessing)
          (transactions w))))"
    using loadPendingSchedules_armed_exact[of e w] by simp
  then obtain tx where tx: "tx \<in> set (transactions w)"
      "Status tx = StatusPending \<or> Status tx = StatusProcessing"
      and x: "x \<in> set ((if \<not> StartActionCompleted tx
        then [AfterFunc (clampDelay (Until e (StartAt tx)))
                (ScheduleAction (TransactionID tx) ''start'' (SubscriptionRequest tx))]
        else []) @
       (case EndAt tx of
          None \<Rightarrow> []
        | Some endAt \<Rightarrow>
            if StartActionCompleted tx \<and> \<not> EndActionCompleted tx
            then [AfterFunc (clampDelay (Until e endAt))
                    (ScheduleAction (TransactionID tx) ''end'' (SubscriptionRequest tx))]
            else []))"
    by (auto split: if_splits)
  from x have "(\<not> StartActionCompleted tx
                \<and> x = AfterFunc (clampDelay (Until e (StartAt tx)))
                        (ScheduleAction (TransactionID tx) ''start'' (SubscriptionRequest tx)))
              \<or> (\<exists>endAt. EndAt tx = Some endAt \<and> StartActionCompleted tx
                    \<and> \<not> EndActionCompleted tx
                    \<and> x = AfterFunc (clampDelay (Until e endAt))
                            (ScheduleAction (TransactionID tx) ''end''
                               (SubscriptionRequest tx)))"
    by (cases "EndAt tx") (auto split: if_splits)
  with tx show ?thesis by blast
qed

lemma loadPendingSchedules_end_armed:
  assumes "\<not> fails e GetPendingTransactions_Find" and "tx \<in> set (transactions w)"
      and "Status tx = StatusPending \<or> Status tx = StatusProcessing"
      and "EndAt tx = Some endAt" and "StartActionCompleted tx" and "\<not> EndActionCompleted tx"
  shows "AfterFunc (clampDelay (Until e endAt))
           (ScheduleAction (TransactionID tx) ''end'' (SubscriptionRequest tx))
         \<in> set (armed (snd (loadPendingSchedules e w)))"
  using assms unfolding loadPendingSchedules_armed_exact
  by (auto intro!: bexI[of _ tx])








section \<open>C1: at most one AllDevicesCompleted per transaction and phase\<close>

text \<open>
  Claim C1. In a collection with unique \<open>_id\<close>: along every history of writes the
  election for the notified flag of a transaction and phase is won at most once, and never
  once the flag is true; over every sequence of deliveries handled by the worker at most one
  \<open>AllDevicesCompleted\<close> is published for the transaction and phase, and none once the
  flag is true; a call of \<open>UpdateDeviceActionStatus\<close> then never returns
  \<open>allCompleted = true\<close>; and a call that does return \<open>true\<close> leaves the flag true
  on a row all of whose devices are terminal for the phase.
\<close>

theorem AllDevicesCompleted_at_most_once:
  assumes "distinct (map TransactionID ds)"
  shows "elections_won transactionID action ws ds \<le> 1
    \<and> (find (\<lambda>t. TransactionID t = transactionID) ds = Some t \<and> notified action t \<longrightarrow>
         elections_won transactionID action ws ds = 0)
    \<and> (transactions w = ds \<longrightarrow>
         length (filter (is_AllDevicesCompleted transactionID action) (sent (worker_run config rs w)))
           \<le> length (filter (is_AllDevicesCompleted transactionID action) (sent w)) + 1)
    \<and> (transactions w = ds \<and> find (\<lambda>t. TransactionID t = transactionID) ds = Some t
          \<and> notified action t \<longrightarrow>
         filter (is_AllDevicesCompleted transactionID action) (sent (worker_run config rs w))
           = filter (is_AllDevicesCompleted transactionID action) (sent w)
         \<and> fst (UpdateDeviceActionStatus e transactionID deviceID action status w) \<noteq> Inr True)
    \<and> (transactions w = ds
          \<and> UpdateDeviceActionStatus e transactionID deviceID action status w = (Inr True, w') \<longrightarrow>
         (\<exists>t'. find (\<lambda>t. TransactionID t = transactionID) (transactions w') = Some t'
               \<and> notified action t' \<and> Devices t' \<noteq> []
               \<and> list_all (completed action) (Devices t')))"
proof -
  obtain hs new where run:
      "sent (worker_run config rs w) = sent w @ new"
      "length (filter (is_AllDevicesCompleted transactionID action) new)
         \<le> elections_won transactionID action hs (transactions w)"
    using worker_run_events[of config rs w transactionID action] by blast
  have 1: "elections_won transactionID action ws ds \<le> 1"
    using assms by (rule elections_won_le_1)
  have 2: "find (\<lambda>t. TransactionID t = transactionID) ds = Some t \<and> notified action t \<longrightarrow>
             elections_won transactionID action ws ds = 0"
    using no_election_after_notified[OF assms] by blast
  have 3: "transactions w = ds \<longrightarrow>
         length (filter (is_AllDevicesCompleted transactionID action) (sent (worker_run config rs w)))
           \<le> length (filter (is_AllDevicesCompleted transactionID action) (sent w)) + 1"
    using run elections_won_le_1[OF assms, of transactionID action hs] by auto
  have 4: "transactions w = ds \<and> find (\<lambda>t. TransactionID t = transactionID) ds = Some t
          \<and> notified action t \<longrightarrow>
         filter (is_AllDevicesCompleted transactionID action) (sent (worker_run config rs w))
           = filter (is_AllDevicesCompleted transactionID action) (sent w)
         \<and> fst (UpdateDeviceActionStatus e transactionID deviceID action status w) \<noteq> Inr True"
    using run no_election_after_notified[OF assms, of transactionID t action hs]
      UpdateDeviceActionStatus_loser[of w transactionID t action e deviceID status] assms
    by auto
  have 5: "transactions w = ds
          \<and> UpdateDeviceActionStatus e transactionID deviceID action status w = (Inr True, w') \<longrightarrow>
         (\<exists>t'. find (\<lambda>t. TransactionID t = transactionID) (transactions w') = Some t'
               \<and> notified action t' \<and> Devices t' \<noteq> []
               \<and> list_all (completed action) (Devices t'))"
    using UpdateDeviceActionStatus_winner[of w e transactionID deviceID action status w'] assms
    by blast
  from 1 2 3 4 5 show ?thesis by blast
qed

theorem AllDevicesCompleted_at_most_once_witness:
  "distinct (map TransactionID (transactions world1))
   \<and> elections_won ''t1'' ''start''
        [Status_w ''t1'' ''d1'' ''start'' ''success'' 10, Notify_w ''t1'' ''start'' 10,
         Notify_w ''t1'' ''start'' 11] (transactions world1) \<le> 1
   \<and> length (filter (is_AllDevicesCompleted ''t1'' ''start'')
               (sent (worker_run config1
                  [(env_ok, ''t1'', device1, ''d1'', ''start'', True, sink1),
                   (env_ok, ''t1'', device1, ''d1'', ''start'', True, sink1)] world1)))
        \<le> length (filter (is_AllDevicesCompleted ''t1'' ''start'') (sent world1)) + 1"
proof -
  have d: "distinct (map TransactionID (transactions world1))"
    by (simp add: world1_def)
  show ?thesis
    using d AllDevicesCompleted_at_most_once [OF d, where w = world1 and transactionID = "''t1''"
        and action = "''start''" and config = config1
        and ws = "[Status_w ''t1'' ''d1'' ''start'' ''success'' 10, Notify_w ''t1'' ''start'' 10,
                   Notify_w ''t1'' ''start'' 11]"
        and rs = "[(env_ok, ''t1'', device1, ''d1'', ''start'', True, sink1),
                   (env_ok, ''t1'', device1, ''d1'', ''start'', True, sink1)]"]
    by blast
qed

section \<open>C2: the atomic claim\<close>

text \<open>
  Claim C2 says that the claim is filtered on the status being Pending or Processing and
  that a fire whose filter matches no document is dropped without error. At explicit
  inputs: a transaction whose status is \<open>Completed\<close> is claimed and its actuation request
  is published; and for an identifier without row the filter matches nothing, yet
  \<open>fireSchedule\<close> returns an error and publishes a \<open>PowerSavingError\<close>.
\<close>

theorem claim_ignores_status_counterexample:
  "fst (ClaimTransaction env_ok ''t1'' ''start'' world1_completed) = Inr True
   \<and> sent (snd (fireSchedule env_ok (ScheduleAction ''t1'' ''start'' sink1) world1_completed))
       = [SendCall ''t1-start-device-0'' EventTypeDeviceActuationRequest SourceiotScheduler
            (DeviceActuationRequestData device1 True ''t1'' ''start'' sink1)]
   \<and> fst (fireSchedule env_ok (ScheduleAction ''t9'' ''start'' sink1) world0)
       = Some (Errorf ''claim transaction'' (ErrTransactionNotFound ''t9''))
   \<and> sent (snd (fireSchedule env_ok (ScheduleAction ''t9'' ''start'' sink1) world0))
       = [SendCall ''t9-start-error'' EventTypePowerSavingError SourceiotScheduler
            (ErrorNotificationData ''t9'' 500 ''INTERNAL_ERROR''
               ''Failed to claim transaction in database'' ''start'' sink1)]"
  by code_simp

text \<open>
  Claim C2, amended. The filter of the claim is the \<open>_id\<close> together with
  \<open><action>ActionCompleted \<noteq> true\<close> for the actions start and end; the status of the
  row is not part of it. When it matches, the claim succeeds and sets \<open>updatedAt\<close> on
  that row only. When it matches no document, no \<open>DeviceActuationRequest\<close> is published
  whatever else happens; and if both store calls succeed the fire is dropped without error
  and without any effect when a row with the identifier exists, while without such a row
  \<open>fireSchedule\<close> returns the error \<open>transaction not found\<close> and notifies the error.
\<close>

theorem claim_filter_and_drop:
  "claimFilter transactionID action (t\<lparr>Status := s\<rparr>) = claimFilter transactionID action t
   \<and> claimFilter transactionID ''start'' t
       = (TransactionID t = transactionID \<and> \<not> StartActionCompleted t)
   \<and> claimFilter transactionID ''end'' t
       = (TransactionID t = transactionID \<and> \<not> EndActionCompleted t)
   \<and> (list_ex (claimFilter transactionID action) (transactions w)
        \<and> \<not> fails e (ClaimTransaction_UpdateOne transactionID action) \<longrightarrow>
        ClaimTransaction e transactionID action w
          = (Inr True,
             w\<lparr>transactions := update_first (claimFilter transactionID action)
                                  (\<lambda>t. t\<lparr>UpdatedAt := now e\<rparr>) (transactions w)\<rparr>))
   \<and> (\<not> list_ex (claimFilter transactionID action) (transactions w) \<longrightarrow>
        filter is_DeviceActuationRequest
          (sent (snd (fireSchedule e (ScheduleAction transactionID action sub) w)))
        = filter is_DeviceActuationRequest (sent w))
   \<and> (\<not> list_ex (claimFilter transactionID action) (transactions w)
        \<and> \<not> fails e (ClaimTransaction_UpdateOne transactionID action)
        \<and> \<not> fails e (ClaimTransaction_FindOne transactionID) \<longrightarrow>
        fireSchedule e (ScheduleAction transactionID action sub) w
          = (if list_ex (\<lambda>t. TransactionID t = transactionID) (transactions w)
             then (None, w)
             else (Some (Errorf ''claim transaction'' (ErrTransactionNotFound transactionID)),
                   sendErrorNotification e transactionID action ''INTERNAL_ERROR''
                     ''Failed to claim transaction in database'' sub w)))"
proof (intro conjI impI)
  show "claimFilter transactionID action (t\<lparr>Status := s\<rparr>) = claimFilter transactionID action t"
    by (simp add: claimFilter_def)
  show "claimFilter transactionID ''start'' t
       = (TransactionID t = transactionID \<and> \<not> StartActionCompleted t)"
    by (simp add: claimFilter_def)
  show "claimFilter transactionID ''end'' t
       = (TransactionID t = transactionID \<and> \<not> EndActionCompleted t)"
    by (simp add: claimFilter_def)
next
  assume "list_ex (claimFilter transactionID action) (transactions w)
        \<and> \<not> fails e (ClaimTransaction_UpdateOne transactionID action)"
  then show "ClaimTransaction e transactionID action w
          = (Inr True,
             w\<lparr>transactions := update_first (claimFilter transactionID action)
                                  (\<lambda>t. t\<lparr>UpdatedAt := now e\<rparr>) (transactions w)\<rparr>)"
    by (simp add: ClaimTransaction_def UpdateOne_def)
next
  assume "\<not> list_ex (claimFilter transactionID action) (transactions w)"
  then show "filter is_DeviceActuationRequest
          (sent (snd (fireSchedule e (ScheduleAction transactionID action sub) w)))
        = filter is_DeviceActuationRequest (sent w)"
    by (rule fireSchedule_no_match)
next
  assume "\<not> list_ex (claimFilter transactionID action) (transactions w)
        \<and> \<not> fails e (ClaimTransaction_UpdateOne transactionID action)
        \<and> \<not> fails e (ClaimTransaction_FindOne transactionID)"
  then show "fireSchedule e (ScheduleAction transactionID action sub) w
          = (if list_ex (\<lambda>t. TransactionID t = transactionID) (transactions w)
             then (None, w)
             else (Some (Errorf ''claim transaction'' (ErrTransactionNotFound transactionID)),
                   sendErrorNotification e transactionID action ''INTERNAL_ERROR''
                     ''Failed to claim transaction in database'' sub w))"
    by (auto simp: fireSchedule_def ClaimTransaction_def UpdateOne_def find_None_iff_set
               list_ex_iff find_Some_iff
             split: option.splits)
qed

theorem claim_filter_and_drop_witness:
  "fireSchedule env_ok (ScheduleAction ''t1'' ''start'' sink1) world1_started = (None, world1_started)
   \<and> fireSchedule env_ok (ScheduleAction ''t9'' ''start'' sink1) world0
       = (Some (Errorf ''claim transaction'' (ErrTransactionNotFound ''t9'')),
          sendErrorNotification env_ok ''t9'' ''start'' ''INTERNAL_ERROR''
            ''Failed to claim transaction in database'' sink1 world0)
   \<and> fst (ClaimTransaction env_ok ''t1'' ''start'' world1) = Inr True"
proof -
  have a: "\<not> list_ex (claimFilter ''t1'' ''start'') (transactions world1_started)"
    by code_simp
  have b: "list_ex (\<lambda>t. TransactionID t = ''t1'') (transactions world1_started)"
    by code_simp
  have c: "\<not> list_ex (claimFilter ''t9'' ''start'') (transactions world0)"
     "\<not> list_ex (\<lambda>t. TransactionID t = ''t9'') (transactions world0)"
    by (simp_all add: world0_def)
  have d: "list_ex (claimFilter ''t1'' ''start'') (transactions world1)"
    by code_simp
  have ok: "\<not> fails env_ok x" for x by (simp add: env_ok_def)
  show ?thesis
    using claim_filter_and_drop [of "''t1''" "''start''" _ _ world1_started env_ok sink1]
      claim_filter_and_drop [of "''t9''" "''start''" _ _ world0 env_ok sink1]
      claim_filter_and_drop [of "''t1''" "''start''" _ _ world1 env_ok sink1]
      a b c d ok
    by simp
qed

section \<open>C3: the status of a device action\<close>

text \<open>
  Claim C3 says that the status of a device action only moves forward along
  Pending, InProgress, Success or Failed, under every sequence of handler executions. The
  status writes carry no condition on the stored status. At an explicit input: after one
  delivery the start action of the device is \<open>success\<close>; the first status update of a
  re-delivery of the same request stores \<open>in-progress\<close> over it; and when the device
  client fails during the re-delivery the stored status ends as \<open>failed\<close>.
\<close>

theorem status_regresses_counterexample:
  "status_of ''t1'' ''d1'' ''start''
     (worker_run config1 [(env_ok, ''t1'', device1, ''d1'', ''start'', True, sink1)] world1)
     = Some ''success''
   \<and> status_of ''t1'' ''d1'' ''start''
       (snd (UpdateDeviceActionStatus env_ok ''t1'' ''d1'' ''start'' ''in-progress''
               (worker_run config1 [(env_ok, ''t1'', device1, ''d1'', ''start'', True, sink1)]
                  world1)))
     = Some ''in-progress''
   \<and> status_of ''t1'' ''d1'' ''start''
       (worker_run config1
          [(env_ok, ''t1'', device1, ''d1'', ''start'', True, sink1),
           (env_set_fails, ''t1'', device1, ''d1'', ''start'', True, sink1)] world1)
     = Some ''failed''"
  by code_simp

text \<open>
  Claim C3, amended. Every execution of \<open>processDevice\<close> whose two status updates
  succeed stores \<open>in-progress\<close> for the device and action and then \<open>success\<close> or
  \<open>failed\<close>, which is the status stored when the handler returns, whatever was stored
  before. On a first delivery this is the path Pending, InProgress, Success or Failed.
\<close>

theorem status_written_by_each_execution:
  assumes "UpdateDeviceActionStatus e transactionID deviceID action ''in-progress'' w = (Inr b, w1)"
      and "finalStatus config e device deviceID action enabled w1 = (fs, w2)"
      and "UpdateDeviceActionStatus e transactionID deviceID action fs w2 = (Inr c, w3)"
  shows "status_of transactionID deviceID action w1 = Some ''in-progress''
     \<and> (fs = ''success'' \<or> fs = ''failed'')
     \<and> status_of transactionID deviceID action
          (snd (processDevice config e transactionID device deviceID action enabled sub w))
        = Some fs"
  using UpdateDeviceActionStatus_status_of [OF assms(1)]
    finalStatus_terminal [of config e device deviceID action enabled w1] assms(2)
    processDevice_status_of [OF assms]
  by auto

theorem status_written_by_each_execution_witness:
  "status_of ''t1'' ''d1'' ''start''
     (snd (UpdateDeviceActionStatus env_ok ''t1'' ''d1'' ''start'' ''in-progress'' world1))
     = Some ''in-progress''
   \<and> status_of ''t1'' ''d1'' ''start''
        (snd (processDevice config1 env_ok ''t1'' device1 ''d1'' ''start'' True sink1 world1))
     = Some ''success''"
proof -
  let ?e = env_ok
  let ?u1 = "UpdateDeviceActionStatus ?e ''t1'' ''d1'' ''start'' ''in-progress'' world1"
  let ?f = "finalStatus config1 ?e device1 ''d1'' ''start'' True (snd ?u1)"
  let ?u3 = "UpdateDeviceActionStatus ?e ''t1'' ''d1'' ''start'' ''success'' (snd ?f)"
  have "fst ?u1 = Inr False" by code_simp
  then have u1: "?u1 = (Inr False, snd ?u1)" by (simp add: prod_eq_iff)
  have "fst ?f = ''success''" by code_simp
  then have f: "?f = (''success'', snd ?f)" by (simp add: prod_eq_iff)
  have "fst ?u3 = Inr True" by code_simp
  then have u3: "?u3 = (Inr True, snd ?u3)" by (simp add: prod_eq_iff)
  show ?thesis
    using status_written_by_each_execution [OF u1 f u3, of sink1] by simp
qed

section \<open>C4: when the end timer is armed\<close>

text \<open>
  Claim C4. Handling \<open>ScheduleRequested\<close> arms at most one timer, a start timer. The
  handler of \<open>AllDevicesCompleted\<close> arms a timer exactly when the action is \<open>start\<close>
  and the row it loads has an \<open>endAt\<close>, and then it is the end timer of that
  transaction, with the delay until that \<open>endAt\<close>, clamped; otherwise it changes nothing.
  Startup recovery arms, for the pending and processing rows in order, exactly these
  timers: the start timer of a row whose \<open>startActionCompleted\<close> is false, with the
  clamped delay until its \<open>startAt\<close>; and the end timer of a row with
  \<open>endAt \<noteq> null\<close>, \<open>startActionCompleted\<close> true and \<open>endActionCompleted\<close>
  false, with the clamped delay until that row's \<open>endAt\<close>. So every recovered timer is
  one of these two for some such row, and every row under the end condition gets its end
  timer. Firing a schedule arms nothing. The clamp makes a delay zero when the instant is
  not in the future and leaves it the distance to the instant otherwise. The event that
  opens the gate is published by the worker only for a row all of whose devices have a
  terminal start action: whenever a start-phase execution of \<open>processDevice\<close> publishes
  anything, the row has devices and each of them is stored as \<open>success\<close> or
  \<open>failed\<close>.
\<close>

theorem end_timer_arming:
  "(armed (snd (handleScheduleRequested e data w)) = armed w
    \<or> armed (snd (handleScheduleRequested e data w))
        = armed w @ [AfterFunc (clampDelay (Until e (StartAt_sr data)))
                       (ScheduleAction (TransactionID_sr data) ''start''
                          (SubscriptionRequest_sr data))])
   \<and> (action = ''start'' \<and> GetTransaction e transactionID w = Inr t \<and> EndAt t = Some endAt \<longrightarrow>
        armed (snd (handleAllDevicesCompleted e transactionID action w))
          = armed w @ [AfterFunc (clampDelay (Until e endAt))
                         (ScheduleAction transactionID ''end'' (SubscriptionRequest t))])
   \<and> (\<not> (action = ''start''
            \<and> (\<exists>t endAt. GetTransaction e transactionID w = Inr t \<and> EndAt t = Some endAt)) \<longrightarrow>
        snd (handleAllDevicesCompleted e transactionID action w) = w)
   \<and> (\<exists>new. armed (snd (loadPendingSchedules e w)) = armed w @ new
         \<and> (\<forall>d k a s. AfterFunc d (ScheduleAction k a s) \<in> set new \<longrightarrow>
               0 \<le> d \<and> (a = ''start'' \<or> a = ''end'')
               \<and> (\<exists>tx\<in>set (transactions w). k = TransactionID tx
                     \<and> (Status tx = StatusPending \<or> Status tx = StatusProcessing)
                     \<and> (a = ''start'' \<longrightarrow> \<not> StartActionCompleted tx)
                     \<and> (a = ''end'' \<longrightarrow> recoverable_end tx))))
   \<and> armed (snd (loadPendingSchedules e w)) = armed w @
       (if fails e GetPendingTransactions_Find then []
        else concat (map (\<lambda>tx.
          (if \<not> StartActionCompleted tx
           then [AfterFunc (clampDelay (Until e (StartAt tx)))
                   (ScheduleAction (TransactionID tx) ''start'' (SubscriptionRequest tx))]
           else []) @
          (case EndAt tx of
             None \<Rightarrow> []
           | Some endAt \<Rightarrow>
               if StartActionCompleted tx \<and> \<not> EndActionCompleted tx
               then [AfterFunc (clampDelay (Until e endAt))
                       (ScheduleAction (TransactionID tx) ''end'' (SubscriptionRequest tx))]
               else []))
          (filter (\<lambda>t. Status t = StatusPending \<or> Status t = StatusProcessing)
             (transactions w))))
   \<and> (armed (snd (loadPendingSchedules e w)) = armed w @ recovered \<and> x \<in> set recovered \<longrightarrow>
        (\<exists>tx\<in>set (transactions w).
           (Status tx = StatusPending \<or> Status tx = StatusProcessing)
           \<and> ((\<not> StartActionCompleted tx
                \<and> x = AfterFunc (clampDelay (Until e (StartAt tx)))
                        (ScheduleAction (TransactionID tx) ''start'' (SubscriptionRequest tx)))
              \<or> (\<exists>endAt. EndAt tx = Some endAt \<and> StartActionCompleted tx
                    \<and> \<not> EndActionCompleted tx
                    \<and> x = AfterFunc (clampDelay (Until e endAt))
                            (ScheduleAction (TransactionID tx) ''end''
                               (SubscriptionRequest tx))))))
   \<and> (\<not> fails e GetPendingTransactions_Find \<and> row \<in> set (transactions w)
        \<and> (Status row = StatusPending \<or> Status row = StatusProcessing)
        \<and> EndAt row = Some endAt \<and> StartActionCompleted row \<and> \<not> EndActionCompleted row \<longrightarrow>
        AfterFunc (clampDelay (Until e endAt))
          (ScheduleAction (TransactionID row) ''end'' (SubscriptionRequest row))
        \<in> set (armed (snd (loadPendingSchedules e w))))
   \<and> armed (snd (fireSchedule e sa w)) = armed w
   \<and> 0 \<le> clampDelay (Until e endAt)
   \<and> (endAt \<le> now e \<longrightarrow> clampDelay (Until e endAt) = 0)
   \<and> (now e \<le> endAt \<and> endAt - now e < 2 ^ 63 \<longrightarrow> clampDelay (Until e endAt) = endAt - now e)
   \<and> (distinct (map TransactionID (transactions w))
        \<and> sent (snd (processDevice config e transactionID device deviceID ''start'' enabled sub w))
            \<noteq> sent w \<longrightarrow>
        (\<exists>t'. find (\<lambda>t. TransactionID t = transactionID)
                (transactions
                   (snd (processDevice config e transactionID device deviceID ''start'' enabled
                           sub w)))
              = Some t'
              \<and> Devices t' \<noteq> [] \<and> list_all (completed ''start'') (Devices t')))"
proof -
  have c0: "endAt \<le> now e \<longrightarrow> clampDelay (Until e endAt) = 0"
    by (auto simp: clampDelay_def Until_def)
  have c1: "now e \<le> endAt \<and> endAt - now e < 2 ^ 63 \<longrightarrow>
              clampDelay (Until e endAt) = endAt - now e"
    by (auto simp: clampDelay_def Until_def)
  have only: "armed (snd (loadPendingSchedules e w)) = armed w @ recovered
                \<and> x \<in> set recovered \<longrightarrow>
        (\<exists>tx\<in>set (transactions w).
           (Status tx = StatusPending \<or> Status tx = StatusProcessing)
           \<and> ((\<not> StartActionCompleted tx
                \<and> x = AfterFunc (clampDelay (Until e (StartAt tx)))
                        (ScheduleAction (TransactionID tx) ''start'' (SubscriptionRequest tx)))
              \<or> (\<exists>endAt. EndAt tx = Some endAt \<and> StartActionCompleted tx
                    \<and> \<not> EndActionCompleted tx
                    \<and> x = AfterFunc (clampDelay (Until e endAt))
                            (ScheduleAction (TransactionID tx) ''end''
                               (SubscriptionRequest tx)))))"
    using loadPendingSchedules_only[of e w recovered x] by blast
  have pos: "\<not> fails e GetPendingTransactions_Find \<and> row \<in> set (transactions w)
        \<and> (Status row = StatusPending \<or> Status row = StatusProcessing)
        \<and> EndAt row = Some endAt \<and> StartActionCompleted row \<and> \<not> EndActionCompleted row \<longrightarrow>
        AfterFunc (clampDelay (Until e endAt))
          (ScheduleAction (TransactionID row) ''end'' (SubscriptionRequest row))
        \<in> set (armed (snd (loadPendingSchedules e w)))"
    using loadPendingSchedules_end_armed[of e row w endAt] by blast
  show ?thesis
    apply (intro conjI)
    subgoal by (rule handleScheduleRequested_armed)
    subgoal using handleAllDevicesCompleted_armed [of action e transactionID w t endAt] by blast
    subgoal using handleAllDevicesCompleted_armed [of action e transactionID w t endAt] by blast
    subgoal by (rule loadPendingSchedules_armed)
    subgoal by (rule loadPendingSchedules_armed_exact)
    subgoal by (rule only)
    subgoal by (rule pos)
    subgoal by (rule fireSchedule_armed)
    subgoal by (rule clampDelay_nonneg)
    subgoal by (rule c0)
    subgoal by (rule c1)
    subgoal using processDevice_event_after_completion
        [of w config e transactionID device deviceID "''start''" enabled sub] by blast
    done
qed

theorem end_timer_arming_witness:
  "armed (snd (handleAllDevicesCompleted env_ok ''t2'' ''start'' world2))
     = [AfterFunc 10 (ScheduleAction ''t2'' ''end'' sink1)]
   \<and> snd (handleAllDevicesCompleted env_ok ''t2'' ''end'' world2) = world2
   \<and> snd (handleAllDevicesCompleted env_ok ''t1'' ''start'' world1) = world1
   \<and> armed (snd (loadPendingSchedules env_ok world2_recovering))
       = [AfterFunc 10 (ScheduleAction ''t2'' ''end'' sink1)]
   \<and> armed (snd (loadPendingSchedules env_late world2_recovering))
       = [AfterFunc 0 (ScheduleAction ''t2'' ''end'' sink1)]
   \<and> armed (snd (loadPendingSchedules env_late world2))
       = [AfterFunc 0 (ScheduleAction ''t2'' ''start'' sink1)]
   \<and> AfterFunc 0 (ScheduleAction ''t2'' ''end'' sink1)
       \<in> set (armed (snd (loadPendingSchedules env_late world2_recovering)))"
proof -
  have g: "GetTransaction env_ok ''t2'' world2 = Inr transaction2" by code_simp
  have e: "EndAt transaction2 = Some 20" by (simp add: transaction2_def)
  have n: "\<not> (''end'' = ''start''
            \<and> (\<exists>t endAt. GetTransaction env_ok ''t2'' world2 = Inr t \<and> EndAt t = Some endAt))"
    by simp
  have g1: "GetTransaction env_ok ''t1'' world1 = Inr transaction1" by code_simp
  have n1: "\<not> (''start'' = ''start''
            \<and> (\<exists>t endAt. GetTransaction env_ok ''t1'' world1 = Inr t \<and> EndAt t = Some endAt))"
    using g1 by (simp add: transaction1_def)
  have d: "clampDelay (Until env_ok 20) = 10" "clampDelay (Until env_late 20) = 0"
      "clampDelay (Until env_late 5) = 0"
    by (simp_all add: clampDelay_def Until_def env_ok_def env_late_def)
  have ok: "\<not> fails env_ok GetPendingTransactions_Find"
      "\<not> fails env_late GetPendingTransactions_Find"
    by (simp_all add: env_ok_def env_late_def)
  have 1: "armed (snd (handleAllDevicesCompleted env_ok ''t2'' ''start'' world2))
     = [AfterFunc 10 (ScheduleAction ''t2'' ''end'' sink1)]"
    using end_timer_arming [where e = env_ok and w = world2 and action = "''start''"
            and transactionID = "''t2''" and t = transaction2 and endAt = 20] g e d
    by (simp add: transaction2_def world2_def)
  have 2: "snd (handleAllDevicesCompleted env_ok ''t2'' ''end'' world2) = world2"
    using end_timer_arming [where e = env_ok and w = world2 and action = "''end''"
            and transactionID = "''t2''"] n
    by blast
  have 3: "snd (handleAllDevicesCompleted env_ok ''t1'' ''start'' world1) = world1"
    using end_timer_arming [where e = env_ok and w = world1 and action = "''start''"
            and transactionID = "''t1''"] n1
    by blast
  have 4: "armed (snd (loadPendingSchedules env_ok world2_recovering))
       = [AfterFunc 10 (ScheduleAction ''t2'' ''end'' sink1)]"
    using end_timer_arming [where e = env_ok and w = world2_recovering] ok d
    by (simp add: world2_recovering_def world2_def transaction2_def)
  have 5: "armed (snd (loadPendingSchedules env_late world2_recovering))
       = [AfterFunc 0 (ScheduleAction ''t2'' ''end'' sink1)]"
    using end_timer_arming [where e = env_late and w = world2_recovering] ok d
    by (simp add: world2_recovering_def world2_def transaction2_def)
  have 6: "armed (snd (loadPendingSchedules env_late world2))
       = [AfterFunc 0 (ScheduleAction ''t2'' ''start'' sink1)]"
    using end_timer_arming [where e = env_late and w = world2] ok d
    by (simp add: world2_def transaction2_def)
  have 7: "AfterFunc 0 (ScheduleAction ''t2'' ''end'' sink1)
       \<in> set (armed (snd (loadPendingSchedules env_late world2_recovering)))"
    using end_timer_arming [where e = env_late and w = world2_recovering
            and row = "transaction2\<lparr>StartActionCompleted := True\<rparr>" and endAt = 20] ok d
    by (simp add: world2_recovering_def world2_def transaction2_def)
  from 1 2 3 4 5 6 7 show ?thesis by blast
qed

section \<open>C5: a replayed ScheduleRequested\<close>

text \<open>
  Claim C5 says that handling a \<open>ScheduleRequested\<close> whose transaction already has a
  row returns success and publishes no error event. At an explicit input: the first
  delivery succeeds; the second returns the error of the duplicate key and publishes a
  \<open>PowerSavingError\<close>.
\<close>

theorem replay_returns_error_counterexample:
  "fst (handleScheduleRequested env_ok request1 world0) = None
   \<and> fst (handleScheduleRequested env_ok request1
            (snd (handleScheduleRequested env_ok request1 world0)))
       = Some (Errorf ''create transaction'' ErrDuplicateKey)
   \<and> sent (snd (handleScheduleRequested env_ok request1
                  (snd (handleScheduleRequested env_ok request1 world0))))
       = [SendCall ''t1-start-error'' EventTypePowerSavingError SourceiotScheduler
            (ErrorNotificationData ''t1'' 500 ''INTERNAL_ERROR''
               ''Failed to create transaction in database'' ''start'' sink1)]"
  by code_simp

text \<open>
  Claim C5, amended. When a row with the transaction's identifier exists, the handler
  returns a \<open>create transaction\<close> error, publishes one \<open>PowerSavingError\<close>
  (\<open>INTERNAL_ERROR\<close>, action start) unless the sink is empty, and changes nothing else;
  so any number of replays leaves the collection, the armed timers and the timer map as
  they were. After a first delivery that succeeds, and after any number of replays, exactly
  one row carries the identifier.
\<close>

theorem replayed_ScheduleRequested:
  "(list_ex (\<lambda>t. TransactionID t = TransactionID_sr data) (transactions w) \<longrightarrow>
      handleScheduleRequested e data w =
        (Some (Errorf ''create transaction''
                 (if fails e (CreateTransaction_InsertOne (TransactionID_sr data))
                  then ErrDriver else ErrDuplicateKey)),
         w\<lparr>sent := sent w @
              (if Sink (SubscriptionRequest_sr data) = [] then []
               else [SendCall (TransactionID_sr data @ ''-start-error'')
                       EventTypePowerSavingError SourceiotScheduler
                       (ErrorNotificationData (TransactionID_sr data) 500 ''INTERNAL_ERROR''
                          ''Failed to create transaction in database'' ''start''
                          (SubscriptionRequest_sr data))])\<rparr>)
      \<and> transactions (scheduler_replay es data w) = transactions w
      \<and> armed (scheduler_replay es data w) = armed w
      \<and> timers (scheduler_replay es data w) = timers w)
   \<and> (\<not> list_ex (\<lambda>t. TransactionID t = TransactionID_sr data) (transactions w)
        \<and> \<not> fails e (CreateTransaction_InsertOne (TransactionID_sr data)) \<longrightarrow>
      fst (handleScheduleRequested e data w) = None
      \<and> length (filter (\<lambda>t. TransactionID t = TransactionID_sr data)
                  (transactions (scheduler_replay es data
                                   (snd (handleScheduleRequested e data w))))) = 1)"
proof (intro conjI impI)
  assume a: "list_ex (\<lambda>t. TransactionID t = TransactionID_sr data) (transactions w)"
  show "handleScheduleRequested e data w =
        (Some (Errorf ''create transaction''
                 (if fails e (CreateTransaction_InsertOne (TransactionID_sr data))
                  then ErrDriver else ErrDuplicateKey)),
         w\<lparr>sent := sent w @
              (if Sink (SubscriptionRequest_sr data) = [] then []
               else [SendCall (TransactionID_sr data @ ''-start-error'')
                       EventTypePowerSavingError SourceiotScheduler
                       (ErrorNotificationData (TransactionID_sr data) 500 ''INTERNAL_ERROR''
                          ''Failed to create transaction in database'' ''start''
                          (SubscriptionRequest_sr data))])\<rparr>)"
    using handleScheduleRequested_duplicate[OF a, of e]
    by (simp add: sendErrorNotification_world)
  show "transactions (scheduler_replay es data w) = transactions w"
    "armed (scheduler_replay es data w) = armed w"
    "timers (scheduler_replay es data w) = timers w"
    using scheduler_replay_duplicate[OF a, of es] by simp_all
next
  assume b: "\<not> list_ex (\<lambda>t. TransactionID t = TransactionID_sr data) (transactions w)
        \<and> \<not> fails e (CreateTransaction_InsertOne (TransactionID_sr data))"
  let ?w1 = "snd (handleScheduleRequested e data w)"
  from b show "fst (handleScheduleRequested e data w) = None"
    by (simp add: handleScheduleRequested_first)
  have l: "length (filter (\<lambda>t. TransactionID t = TransactionID_sr data) (transactions ?w1)) = 1"
    using b by (simp add: handleScheduleRequested_first)
  then have "filter (\<lambda>t. TransactionID t = TransactionID_sr data) (transactions ?w1) \<noteq> []"
    by auto
  then have "list_ex (\<lambda>t. TransactionID t = TransactionID_sr data) (transactions ?w1)"
    by (auto simp: list_ex_iff filter_empty_conv)
  from scheduler_replay_duplicate[OF this, of es] l
  show "length (filter (\<lambda>t. TransactionID t = TransactionID_sr data)
                  (transactions (scheduler_replay es data ?w1))) = 1"
    by simp
qed

theorem replayed_ScheduleRequested_witness:
  "fst (handleScheduleRequested env_ok request1 world0) = None
   \<and> length (filter (\<lambda>t. TransactionID t = ''t1'')
               (transactions (scheduler_replay [env_ok, env_ok, env_ok] request1
                                (snd (handleScheduleRequested env_ok request1 world0))))) = 1
   \<and> fst (handleScheduleRequested env_ok request1 world1)
       = Some (Errorf ''create transaction'' ErrDuplicateKey)
   \<and> transactions (scheduler_replay [env_ok, env_ok] request1 world1) = transactions world1"
proof -
  have a: "\<not> list_ex (\<lambda>t. TransactionID t = TransactionID_sr request1) (transactions world0)
        \<and> \<not> fails env_ok (CreateTransaction_InsertOne (TransactionID_sr request1))"
    by (simp add: world0_def env_ok_def)
  have b: "list_ex (\<lambda>t. TransactionID t = TransactionID_sr request1) (transactions world1)"
    by code_simp
  have c: "\<not> fails env_ok (CreateTransaction_InsertOne (TransactionID_sr request1))"
    by (simp add: env_ok_def)
  have t: "TransactionID_sr request1 = ''t1''" by (simp add: request1_def)
  have p0: "fst (handleScheduleRequested env_ok request1 world0) = None
      \<and> length (filter (\<lambda>t. TransactionID t = TransactionID_sr request1)
                  (transactions (scheduler_replay [env_ok, env_ok, env_ok] request1
                                   (snd (handleScheduleRequested env_ok request1 world0))))) = 1"
    using replayed_ScheduleRequested [of request1 world0 env_ok "[env_ok, env_ok, env_ok]"] a
    by blast
  have p1: "fst (handleScheduleRequested env_ok request1 world1)
              = Some (Errorf ''create transaction''
                        (if fails env_ok (CreateTransaction_InsertOne (TransactionID_sr request1))
                         then ErrDriver else ErrDuplicateKey))
      \<and> transactions (scheduler_replay [env_ok, env_ok] request1 world1) = transactions world1"
    using replayed_ScheduleRequested [of request1 world1 env_ok "[env_ok, env_ok]"] b
    by (simp del: scheduler_replay.simps)
  show ?thesis
    using p0 p1 c t by (simp del: scheduler_replay.simps)
qed

section \<open>C6: the operation the worker selects\<close>



section \<open>C7: the winner marks the transaction Completed\<close>



section \<open>C8: the fan-out of a claimed action\<close>

text \<open>
  Claim C8. When the claim succeeds and the row is read back, \<open>fireSchedule\<close> returns no
  error and calls \<open>Send\<close> once per device of the row, in list order, and nothing else:
  the call for the device at position \<open>index\<close> has the event ID
  \<open><transactionId>-<action>-device-<index>\<close>, type \<open>DeviceActuationRequest\<close>, the
  device's identifier payload, and \<open>enabled\<close> equal to the transaction's \<open>enabled\<close>,
  negated exactly for the action \<open>end\<close>.
\<close>

theorem fireSchedule_fan_out:
  assumes "ClaimTransaction e transactionID action w = (Inr True, w1)"
      and "GetTransaction e transactionID w1 = Inr t"
  shows "fireSchedule e (ScheduleAction transactionID action sub) w =
     (None,
      w1\<lparr>sent := sent w @
           map (\<lambda>(index, d).
                  SendCall (transactionID @ ''-'' @ action @ ''-device-'' @ decimal index)
                    EventTypeDeviceActuationRequest SourceiotScheduler
                    (DeviceActuationRequestData (Device d)
                       (if action = ''end'' then \<not> Enabled t else Enabled t)
                       transactionID action sub))
             (enumerate 0 (Devices t))\<rparr>)"
proof -
  have id: "TransactionID t = transactionID"
    using assms(2) by (simp add: GetTransaction_found)
  have "sent w1 = sent w"
    using ClaimTransaction_frame[OF assms(1)]
    by (metis world.select_convs(4) world.surjective world.update_convs(1))
  then show ?thesis
    using assms id by (simp add: fireSchedule_def publish_sent ActionEnd_def)
qed

theorem fireSchedule_fan_out_witness:
  "sent (snd (fireSchedule env_ok (ScheduleAction ''t2'' ''end'' sink1) world2)) =
     [SendCall ''t2-end-device-0'' EventTypeDeviceActuationRequest SourceiotScheduler
        (DeviceActuationRequestData device1 False ''t2'' ''end'' sink1),
      SendCall ''t2-end-device-1'' EventTypeDeviceActuationRequest SourceiotScheduler
        (DeviceActuationRequestData (device1\<lparr>NetworkAccessIdentifier := Some ''d2''\<rparr>) False
           ''t2'' ''end'' sink1)]"
proof -
  let ?c = "ClaimTransaction env_ok ''t2'' ''end'' world2"
  have "fst ?c = Inr True" by code_simp
  then have c: "?c = (Inr True, snd ?c)" by (simp add: prod_eq_iff)
  have g: "GetTransaction env_ok ''t2'' (snd ?c) = Inr (transaction2\<lparr>UpdatedAt := 10\<rparr>)"
    by code_simp
  have d: "decimal 0 = ''0''" "decimal 1 = ''1''" by code_simp+
  show ?thesis
    using fireSchedule_fan_out [OF c g, of sink1] d
    by (simp add: transaction2_def world2_def enumerate_eq_zip upt_rec)
qed

section \<open>C9: time validation at admission\<close>


section \<open>C10: transactions without devices\<close>

text \<open>
  Claim C10. On a transaction whose device list is empty \<open>UpdateDeviceActionStatus\<close>
  never returns \<open>allCompleted = true\<close>: it returns an error and leaves the store as it
  was, and however many actuation requests for the transaction the worker handles, nothing
  is published and no row changes, so the transaction is never marked \<open>Completed\<close>. Such
  a transaction is created by \<open>handleScheduleRequested\<close>, which skips every device
  without network access identifier and still inserts the row, without error or event.
\<close>

theorem empty_transaction_never_completes:
  "((\<forall>t\<in>set (transactions w). TransactionID t = transactionID \<longrightarrow> Devices t = []) \<longrightarrow>
      (\<exists>err. UpdateDeviceActionStatus e transactionID deviceID action status w = (Inl err, w))
      \<and> (list_all (\<lambda>(e, k, dev, did, a, en, sub). k = transactionID) rs \<longrightarrow>
           worker_run config rs w = w))
   \<and> ((\<forall>d\<in>set (Devices_sr data). NetworkAccessIdentifier d = None)
        \<and> \<not> list_ex (\<lambda>t. TransactionID t = TransactionID_sr data) (transactions w)
        \<and> \<not> fails e (CreateTransaction_InsertOne (TransactionID_sr data)) \<longrightarrow>
      fst (handleScheduleRequested e data w) = None
      \<and> sent (snd (handleScheduleRequested e data w)) = sent w
      \<and> (\<exists>t. transactions (snd (handleScheduleRequested e data w)) = transactions w @ [t]
             \<and> TransactionID t = TransactionID_sr data \<and> Devices t = []
             \<and> Status t = StatusPending))"
proof (intro conjI impI)
  assume "\<forall>t\<in>set (transactions w). TransactionID t = transactionID \<longrightarrow> Devices t = []"
  then show "\<exists>err. UpdateDeviceActionStatus e transactionID deviceID action status w = (Inl err, w)"
    by (rule UpdateDeviceActionStatus_no_devices)
next
  assume "\<forall>t\<in>set (transactions w). TransactionID t = transactionID \<longrightarrow> Devices t = []"
    and "list_all (\<lambda>(e, k, dev, did, a, en, sub). k = transactionID) rs"
  then show "worker_run config rs w = w"
    by (rule worker_run_no_devices)
next
  assume h: "(\<forall>d\<in>set (Devices_sr data). NetworkAccessIdentifier d = None)
        \<and> \<not> list_ex (\<lambda>t. TransactionID t = TransactionID_sr data) (transactions w)
        \<and> \<not> fails e (CreateTransaction_InsertOne (TransactionID_sr data))"
  then have n: "newDevices (now e) (Devices_sr data) = []"
    by (simp add: newDevices_none)
  show "fst (handleScheduleRequested e data w) = None"
    using h n by (simp add: handleScheduleRequested_def CreateTransaction_def InsertOne_def)
  show "sent (snd (handleScheduleRequested e data w)) = sent w"
    using h n by (simp add: handleScheduleRequested_def CreateTransaction_def InsertOne_def arm_def)
  show "\<exists>t. transactions (snd (handleScheduleRequested e data w)) = transactions w @ [t]
             \<and> TransactionID t = TransactionID_sr data \<and> Devices t = []
             \<and> Status t = StatusPending"
    using h n by (simp add: handleScheduleRequested_def CreateTransaction_def InsertOne_def arm_def)
qed

theorem empty_transaction_never_completes_witness:
  "fst (handleScheduleRequested env_ok request_no_nai world0) = None
   \<and> (\<exists>t. transactions (snd (handleScheduleRequested env_ok request_no_nai world0)) = [t]
          \<and> TransactionID t = ''t3'' \<and> Devices t = [] \<and> Status t = StatusPending)
   \<and> (\<exists>err. UpdateDeviceActionStatus env_ok ''t3'' ''d1'' ''start'' ''success''
               (snd (handleScheduleRequested env_ok request_no_nai world0))
             = (Inl err, snd (handleScheduleRequested env_ok request_no_nai world0)))
   \<and> worker_run config1 [(env_ok, ''t3'', device1, ''d1'', ''start'', True, sink1)]
        (snd (handleScheduleRequested env_ok request_no_nai world0))
      = snd (handleScheduleRequested env_ok request_no_nai world0)"
proof -
  let ?w = "snd (handleScheduleRequested env_ok request_no_nai world0)"
  have a: "(\<forall>d\<in>set (Devices_sr request_no_nai). NetworkAccessIdentifier d = None)
        \<and> \<not> list_ex (\<lambda>t. TransactionID t = TransactionID_sr request_no_nai) (transactions world0)
        \<and> \<not> fails env_ok (CreateTransaction_InsertOne (TransactionID_sr request_no_nai))"
    by (simp add: request_no_nai_def world0_def env_ok_def)
  have b: "\<forall>t\<in>set (transactions ?w). TransactionID t = ''t3'' \<longrightarrow> Devices t = []"
    by code_simp
  have c: "list_all (\<lambda>(e, k, dev, did, a, en, sub). k = ''t3'')
             [(env_ok, ''t3'', device1, ''d1'', ''start'', True, sink1)]"
    by simp
  show ?thesis
    using a b c
      empty_transaction_never_completes [of world0 "''t3''" env_ok "''d1''" "''start''"
        "''success''" "[]" config1 request_no_nai]
      empty_transaction_never_completes [of ?w "''t3''" env_ok "''d1''" "''start''"
        "''success''" "[(env_ok, ''t3'', device1, ''d1'', ''start'', True, sink1)]" config1
        request_no_nai]
    by (simp add: request_no_nai_def world0_def)
qed

end
